theory Spec2Isabelle
  imports Complex_Main "HOL-Library.Multiset" "HOL-Library.Product_Lexorder" "HOL-Library.Log_Nat" "HOL-Library.Sublist"
    "HOL-Library.AList"
begin

section \<open>Python strings and the string operations the agents use\<close>

text \<open>
  A Python \<open>str\<close> is a sequence of Unicode code points, so a string is modelled as the
  list of its code points. ASCII literals are written with \<open>str\<close>; the Korean literals
  of the source are written out as code points (for example U+AE34 U+AE09 for the first
  urgency keyword).
\<close>

type_synonym ustring = "nat list"

definition str :: "string \<Rightarrow> ustring" where
  "str s = map of_char s"

text \<open>
  Three facts about characters come from Python's Unicode tables, which are no part of
  the repository: which code points are whitespace (\<open>str.strip\<close>, \<open>\s\<close>), which are
  word characters (\<open>\w\<close>), and what \<open>str.lower\<close> returns. They are parameters of the
  model, collected in one record.
\<close>

record unicode =
  isspace :: "nat \<Rightarrow> bool"
  isword :: "nat \<Rightarrow> bool"
  lower :: "ustring \<Rightarrow> ustring"

text \<open>\<open>needle in haystack\<close> on strings: the needle occurs as a contiguous run.\<close>

fun str_in :: "ustring \<Rightarrow> ustring \<Rightarrow> bool" where
  "str_in needle [] = (needle = [])"
| "str_in needle (c # cs) = (prefix needle (c # cs) \<or> str_in needle cs)"

text \<open>\<open>s.strip()\<close>: leading and trailing whitespace removed.\<close>

definition strip :: "unicode \<Rightarrow> ustring \<Rightarrow> ustring" where
  "strip U s = rev (dropWhile (isspace U) (rev (dropWhile (isspace U) s)))"

subsection \<open>Regular expressions\<close>

text \<open>
  The agents read the model's answer with \<open>re.search\<close>. The four patterns of the source
  are sequences of single characters and of greedy repetitions (\<open>*\<close>, \<open>+\<close>) of one
  character class, one of them in the capture group. \<open>rx_match\<close> matches such a sequence at
  the start of the input the way Python's backtracking matcher does: a repetition first
  takes as many characters as it can and gives them back one at a time while the rest of
  the pattern fails. Its result is the text of group 1. \<open>re_search\<close> tries every start
  position from the left.
\<close>

datatype quant = Once | Star | Plus

datatype rx_item = Item quant "nat \<Rightarrow> bool" bool

fun try_lengths :: "(nat \<Rightarrow> 'a option) \<Rightarrow> nat list \<Rightarrow> 'a option" where
  "try_lengths f [] = None"
| "try_lengths f (k # ks) = (case f k of Some r \<Rightarrow> Some r | None \<Rightarrow> try_lengths f ks)"

primrec rx_match :: "rx_item list \<Rightarrow> ustring \<Rightarrow> ustring \<Rightarrow> ustring option" where
  "rx_match [] s cap = Some cap"
| "rx_match (it # r) s cap =
     (case it of Item q p grouped \<Rightarrow>
        (let longest = length (takeWhile p s);
             hi = (if q = Once then min 1 longest else longest);
             lo = (if q = Star then 0 else 1)
         in try_lengths (\<lambda>k. rx_match r (drop k s) (if grouped then take k s else cap))
              (rev [lo ..< Suc hi])))"

fun re_search :: "rx_item list \<Rightarrow> ustring \<Rightarrow> ustring option" where
  "re_search pat [] = rx_match pat [] []"
| "re_search pat (c # cs) =
     (case rx_match pat (c # cs) [] of Some g \<Rightarrow> Some g | None \<Rightarrow> re_search pat cs)"

definition lit :: "ustring \<Rightarrow> rx_item list" where
  "lit s = map (\<lambda>c. Item Once (\<lambda>x. x = c) False) s"

text \<open>
  Optional whitespace, a colon, optional whitespace; the colon is the ASCII colon or the
  full-width colon U+FF1A.
\<close>

definition colon :: "unicode \<Rightarrow> rx_item list" where
  "colon U = [Item Star (isspace U) False, Item Once (\<lambda>c. c = 58 \<or> c = 65306) False,
              Item Star (isspace U) False]"

text \<open>\<open>(\w+)\<close>, and \<open>(.+)\<close> where the dot is every character but the newline.\<close>

definition word_group :: "unicode \<Rightarrow> rx_item list" where
  "word_group U = [Item Plus (isword U) True]"

definition rest_of_line_group :: "rx_item list" where
  "rest_of_line_group = [Item Plus (\<lambda>c. c \<noteq> 10) True]"

text \<open>\<open>s.split(',')\<close>.\<close>

fun split_on :: "nat \<Rightarrow> ustring \<Rightarrow> ustring list" where
  "split_on sep [] = [[]]"
| "split_on sep (c # cs) =
     (if c = sep then [] # split_on sep cs
      else (case split_on sep cs of [] \<Rightarrow> [[c]] | w # ws \<Rightarrow> (c # w) # ws))"

section \<open>Python floats\<close>

text \<open>
  A float is an IEEE 754 double. It is modelled by the rational number it holds; every
  operation computes the exact result and rounds it to the nearest double, ties to the
  even significand (\<open>dbl\<close>). The exponent range is not modelled: no overflow and no
  subnormal number arises from the values of this program (the literals 0.3, 0.7, 0.85
  and the quotient of two list lengths, times 100).
\<close>

definition round_half_even :: "rat \<Rightarrow> int" where
  "round_half_even x =
     (let f = \<lfloor>x\<rfloor>; d = x - of_int f
      in if d < 1 / 2 then f else if 1 / 2 < d then f + 1 else if even f then f else f + 1)"

definition scale2 :: "int \<Rightarrow> rat" where
  "scale2 e = (if 0 \<le> e then 2 ^ nat e else 1 / 2 ^ nat (- e))"

text \<open>For \<open>0 < x\<close>, the \<open>e\<close> with \<open>2 ^ e \<le> x < 2 ^ (e + 1)\<close>.\<close>

definition exponent :: "rat \<Rightarrow> int" where
  "exponent x =
     (let (a, b) = quotient_of x; k = bitlen a - bitlen b
      in if scale2 k \<le> x then k else k - 1)"

definition dbl :: "rat \<Rightarrow> rat" where
  "dbl x =
     (if x = 0 then 0
      else let e = exponent \<bar>x\<bar> - 52;
               m = round_half_even (\<bar>x\<bar> / scale2 e)
           in sgn x * of_int m * scale2 e)"

text \<open>\<open>a / b\<close> on two integers (true division) and \<open>x * y\<close> on floats.\<close>

definition truediv :: "int \<Rightarrow> int \<Rightarrow> rat" where
  "truediv a b = dbl (of_int a / of_int b)"

definition fmul :: "rat \<Rightarrow> rat \<Rightarrow> rat" where
  "fmul x y = dbl (x * y)"

text \<open>
  \<open>round(x, 1)\<close>: the decimal with one digit after the point nearest to the value of
  \<open>x\<close> (ties to the even digit), read back as a double.
\<close>

definition round1 :: "rat \<Rightarrow> rat" where
  "round1 x = dbl (of_int (round_half_even (x * 10)) / 10)"

section \<open>Configuration (config/gmail\_config.py)\<close>

text \<open>
  \<open>EMAIL_CATEGORIES\<close> and \<open>PRIORITY_LEVELS\<close> are dictionaries from the key to display
  metadata. The agents only test membership of a key and iterate over the keys, so the
  model keeps the keys in the order of the source, and for the priorities the \<open>value\<close>
  entry.
\<close>

definition EMAIL_CATEGORIES :: "ustring list" where
  "EMAIL_CATEGORIES = [str ''urgent'', str ''work'', str ''marketing'', str ''internal'', str ''spam'']"

definition PRIORITY_LEVELS :: "(ustring \<times> nat) list" where
  "PRIORITY_LEVELS = [(str ''high'', 3), (str ''medium'', 2), (str ''low'', 1)]"

section \<open>The records passed between the stages\<close>

text \<open>
  The agents pass dictionaries used as structs. A key the code reads with
  \<open>d.get(key, default)\<close> may be absent, so its field is an \<open>option\<close> and \<open>None\<close> is the
  absent key; a key read with \<open>d[key]\<close> is a plain field. In \<open>response_draft\<close> the
  fields \<open>draft\<close>, \<open>tone\<close> and \<open>suggested_subject\<close> are nullable values, with \<open>None\<close>
  for Python's \<open>None\<close>, and \<open>draft_reason\<close> is its key \<open>reason\<close>; \<open>sender\<close> is the key
  \<open>from\<close> of an email. The \<open>more\<close> part of an \<open>email\<close> record stands for every key the
  agents never touch (\<open>id\<close>, \<open>date\<close>, \<open>snippet\<close>, ...).
\<close>

record classification =
  category :: "ustring option"
  confidence :: rat
  reason :: ustring

record priority_analysis =
  priority :: "ustring option"
  urgency_score :: "int option"
  factors :: "ustring list"

record response_draft =
  draft :: "ustring option"
  tone :: "ustring option"
  suggested_subject :: "ustring option"
  should_respond :: "bool option"
  draft_reason :: ustring

record email =
  subject :: ustring
  sender :: ustring
  body :: ustring
  classification :: "classification option"
  priority_analysis :: "priority_analysis option"
  response_draft :: "response_draft option"

section \<open>The model service (utils/llm\_handler.py)\<close>

text \<open>
  The prompts are f-strings with a fixed Korean text around the values they embed. A
  prompt is modelled by its template and the embedded values, in the order of the
  source; the system prompts are constants.
\<close>

datatype tone_guide = FormalGuide | FriendlyGuide

datatype prompt =
    ClassifyPrompt ustring ustring ustring
  | PriorityPrompt ustring ustring ustring ustring
  | DraftPrompt ustring ustring ustring ustring ustring tone_guide
  | RefinePrompt ustring ustring
  | ClassifierSystem
  | PrioritySystem
  | DrafterSystem

datatype role = System | User

record api_request =
  model :: ustring
  messages :: "(role \<times> prompt) list"
  max_tokens :: nat
  temperature :: rat

text \<open>
  An exception is either one the OpenAI client raised (any \<open>Exception\<close>, told apart by a
  number; a missing \<open>content\<close> is one of them) or a \<open>ValueError\<close> of the agents with
  its message.
\<close>

datatype error = ClientError nat | ValueError error_msg
and error_msg =
    InvalidCategory "ustring option"
  | ClassifyLLMError error
  | InvalidPriority "ustring option"
  | PriorityLLMError error
  | DraftFailed
  | DraftLLMError error

text \<open>
  The service is an oracle outside the program: \<open>client L n req\<close> is what the \<open>n\<close>-th call
  of a run answers to the request \<open>req\<close>, the text of the completion or the exception.
  Every function that may call the model takes the number of calls made so far and
  returns it updated, so a function that leaves it unchanged made no call. What the
  agents print to the console is not modelled.
\<close>

record llm_handler =
  client :: "nat \<Rightarrow> api_request \<Rightarrow> nat + ustring"
  model_name :: ustring

definition generate ::
  "unicode \<Rightarrow> llm_handler \<Rightarrow> prompt \<Rightarrow> nat \<Rightarrow> rat \<Rightarrow> prompt option \<Rightarrow> nat \<Rightarrow> (error + ustring) \<times> nat" where
  "generate U L prompt max_tok temp system_prompt n =
     (let msgs = (case system_prompt of None \<Rightarrow> [] | Some sp \<Rightarrow> [(System, sp)]) @ [(User, prompt)]
      in case client L n \<lparr>model = model_name L, messages = msgs,
                           max_tokens = max_tok, temperature = temp\<rparr> of
           Inl e \<Rightarrow> (Inl (ClientError e), Suc n)
         | Inr content \<Rightarrow> (Inr (strip U content), Suc n))"

section \<open>Values that may be missing\<close>

text \<open>\<open>not v\<close> and \<open>v in keys\<close> for a value that is \<open>None\<close> or a string.\<close>

definition falsy :: "ustring option \<Rightarrow> bool" where
  "falsy v = (case v of None \<Rightarrow> True | Some s \<Rightarrow> s = [])"

definition in_keys :: "ustring option \<Rightarrow> ustring list \<Rightarrow> bool" where
  "in_keys v keys = (case v of None \<Rightarrow> False | Some s \<Rightarrow> s \<in> set keys)"

text \<open>\<open>d.get(key, default)\<close> on a dictionary literal.\<close>

definition dict_get :: "('k \<times> 'v) list \<Rightarrow> 'k \<Rightarrow> 'v \<Rightarrow> 'v" where
  "dict_get d k dflt = (case map_of d k of None \<Rightarrow> dflt | Some v \<Rightarrow> v)"

text \<open>
  \<open>email.get('classification', {}).get('category', 'work')\<close> and its sibling for the
  priority: the default stands in when either key is absent.
\<close>

definition category_or_work :: "classification option \<Rightarrow> ustring" where
  "category_or_work cls =
     (case cls of None \<Rightarrow> str ''work''
      | Some c \<Rightarrow> (case category c of None \<Rightarrow> str ''work'' | Some s \<Rightarrow> s))"

definition priority_or_medium :: "priority_analysis option \<Rightarrow> ustring" where
  "priority_or_medium pa =
     (case pa of None \<Rightarrow> str ''medium''
      | Some p \<Rightarrow> (case priority p of None \<Rightarrow> str ''medium'' | Some s \<Rightarrow> s))"

section \<open>EmailClassifier (agents/email\_classifier.py)\<close>

definition category_pattern :: "unicode \<Rightarrow> rx_item list" where
  "category_pattern U = lit [52852, 53580, 44256, 47532] @ colon U @ word_group U"

definition reason_pattern :: "unicode \<Rightarrow> rx_item list" where
  "reason_pattern U = lit [51060, 50976] @ colon U @ rest_of_line_group"

definition default_reason :: ustring where
  "default_reason = [76, 76, 77, 32, 48516, 47448, 32, 44208, 44284]"

definition classify_with_llm ::
  "unicode \<Rightarrow> llm_handler \<Rightarrow> 'a email_scheme \<Rightarrow> nat \<Rightarrow> (error + ustring option \<times> ustring) \<times> nat" where
  "classify_with_llm U L email n =
     (let body_preview = (if 500 < length (body email) then take 500 (body email) else body email);
          prompt = ClassifyPrompt (sender email) (subject email) body_preview
      in case generate U L prompt 150 (dbl (3 / 10)) (Some ClassifierSystem) n of
           (Inl e, n') \<Rightarrow> (Inl (ValueError (ClassifyLLMError e)), n')
         | (Inr response, n') \<Rightarrow>
             (let category_match = re_search (category_pattern U) response;
                  reason_match = re_search (reason_pattern U) response;
                  rsn = (case reason_match of Some g \<Rightarrow> strip U g | None \<Rightarrow> default_reason);
                  cat = (if falsy category_match then None else map_option (lower U) category_match)
              in (Inr (cat, rsn), n')))"

definition classify ::
  "unicode \<Rightarrow> llm_handler \<Rightarrow> 'a email_scheme \<Rightarrow> nat \<Rightarrow> (error + classification) \<times> nat" where
  "classify U L email n =
     (case classify_with_llm U L email n of
        (Inl e, n') \<Rightarrow> (Inl e, n')
      | (Inr (cat, rsn), n') \<Rightarrow>
          if falsy cat \<or> \<not> in_keys cat EMAIL_CATEGORIES
          then (Inl (ValueError (InvalidCategory cat)), n')
          else (Inr \<lparr>category = cat, confidence = dbl (85 / 100), reason = rsn\<rparr>, n'))"



text \<open>\<open>if key in stats: stats[key] += 1\<close>.\<close>

definition count_in :: "(ustring \<times> int) list \<Rightarrow> ustring \<Rightarrow> (ustring \<times> int) list" where
  "count_in stats k =
     (case map_of stats k of None \<Rightarrow> stats | Some v \<Rightarrow> AList.update k (v + 1) stats)"

fun category_stats_loop :: "'a email_scheme list \<Rightarrow> (ustring \<times> int) list \<Rightarrow> (ustring \<times> int) list" where
  "category_stats_loop [] stats = stats"
| "category_stats_loop (email # rest) stats =
     category_stats_loop rest (count_in stats (category_or_work (classification email)))"

definition get_category_stats :: "'a email_scheme list \<Rightarrow> (ustring \<times> int) list" where
  "get_category_stats classified_emails =
     category_stats_loop classified_emails (map (\<lambda>c. (c, 0)) EMAIL_CATEGORIES)"

section \<open>PriorityAnalyzer (agents/priority\_analyzer.py)\<close>

definition priority_pattern :: "unicode \<Rightarrow> rx_item list" where
  "priority_pattern U = lit [50864, 49440, 49692, 50948] @ colon U @ word_group U"

definition factors_pattern :: "unicode \<Rightarrow> rx_item list" where
  "factors_pattern U =
     lit [51452, 50836] @ [Item Star (isspace U) False] @ lit [50836, 51064] @ colon U
       @ rest_of_line_group"

definition analyze_with_llm ::
  "unicode \<Rightarrow> llm_handler \<Rightarrow> 'a email_scheme \<Rightarrow> classification option \<Rightarrow> nat
   \<Rightarrow> (error + ustring option \<times> ustring list) \<times> nat" where
  "analyze_with_llm U L email cls n =
     (let body_preview = (if 400 < length (body email) then take 400 (body email) else body email);
          cat = category_or_work cls;
          prompt = PriorityPrompt (sender email) (subject email) cat body_preview
      in case generate U L prompt 150 (dbl (3 / 10)) (Some PrioritySystem) n of
           (Inl e, n') \<Rightarrow> (Inl (ValueError (PriorityLLMError e)), n')
         | (Inr response, n') \<Rightarrow>
             (let priority_match = re_search (priority_pattern U) response;
                  factors_match = re_search (factors_pattern U) response;
                  prio = map_option (lower U) priority_match;
                  factors_text = (case factors_match of Some g \<Rightarrow> strip U g | None \<Rightarrow> []);
                  fs = map (strip U) (filter (\<lambda>f. strip U f \<noteq> []) (split_on 44 factors_text))
              in (Inr (prio, fs), n')))"

subsection \<open>The urgency score\<close>

definition base_scores :: "(ustring \<times> int) list" where
  "base_scores = [(str ''high'', 8), (str ''medium'', 5), (str ''low'', 2)]"

definition urgent_keywords :: "(ustring \<times> int) list" where
  "urgent_keywords =
     [([44596, 44553], 2),
      ([51593, 49884], 2),
      (str ''urgent'', 2),
      (str ''asap'', 2),
      ([48520, 47564], 1),
      ([54872, 48520], 1),
      ([50724, 47448], 1),
      (str ''error'', 1),
      (str ''bug'', 1)]"

text \<open>The \<open>for keyword, points in urgent_keywords.items()\<close> loop, with the running score.\<close>

fun keyword_loop :: "(ustring \<times> int) list \<Rightarrow> ustring \<Rightarrow> ustring \<Rightarrow> int \<Rightarrow> int" where
  "keyword_loop [] subject_lower body_lower score = score"
| "keyword_loop ((keyword, points) # rest) subject_lower body_lower score =
     keyword_loop rest subject_lower body_lower
       (if str_in keyword subject_lower \<or> str_in keyword body_lower then score + points else score)"

definition calculate_urgency_score :: "unicode \<Rightarrow> 'a email_scheme \<Rightarrow> ustring \<Rightarrow> int" where
  "calculate_urgency_score U email prio =
     (let score = dict_get base_scores prio 5;
          subject_lower = lower U (subject email);
          body_lower = lower U (body email)
      in min (keyword_loop urgent_keywords subject_lower body_lower score) 10)"

subsection \<open>Analysis, batch, statistics and sorting\<close>

text \<open>
  The test \<open>not priority or priority not in PRIORITY_LEVELS\<close> is written by cases of the
  value, so that the string is at hand for the urgency score.
\<close>

definition analyze ::
  "unicode \<Rightarrow> llm_handler \<Rightarrow> 'a email_scheme \<Rightarrow> classification option \<Rightarrow> nat
   \<Rightarrow> (error + priority_analysis) \<times> nat" where
  "analyze U L email cls n =
     (case analyze_with_llm U L email cls n of
        (Inl e, n') \<Rightarrow> (Inl e, n')
      | (Inr (prio, fs), n') \<Rightarrow>
          (case prio of
             None \<Rightarrow> (Inl (ValueError (InvalidPriority prio)), n')
           | Some p \<Rightarrow>
               if p = [] \<or> p \<notin> set (map fst PRIORITY_LEVELS)
               then (Inl (ValueError (InvalidPriority prio)), n')
               else (Inr \<lparr>priority = Some p,
                           urgency_score = Some (calculate_urgency_score U email p),
                           factors = fs\<rparr>, n')))"



fun priority_stats_loop :: "'a email_scheme list \<Rightarrow> (ustring \<times> int) list \<Rightarrow> (ustring \<times> int) list" where
  "priority_stats_loop [] stats = stats"
| "priority_stats_loop (email # rest) stats =
     priority_stats_loop rest (count_in stats (priority_or_medium (priority_analysis email)))"

definition get_priority_stats :: "'a email_scheme list \<Rightarrow> (ustring \<times> int) list" where
  "get_priority_stats analyzed_emails =
     priority_stats_loop analyzed_emails (map (\<lambda>p. (p, 0)) (map fst PRIORITY_LEVELS))"

text \<open>
  \<open>sorted(xs, key=f, reverse=True)\<close>: Python reverses the list, sorts it with a stable
  ascending sort and reverses the result, so equal keys keep their input order.
  Tuples compare lexicographically.
\<close>

definition sorted_reverse :: "('a \<Rightarrow> 'k::linorder) \<Rightarrow> 'a list \<Rightarrow> 'a list" where
  "sorted_reverse f xs = rev (sort_key f (rev xs))"

definition priority_order :: "(ustring \<times> int) list" where
  "priority_order = [(str ''high'', 3), (str ''medium'', 2), (str ''low'', 1)]"

definition priority_key :: "'a email_scheme \<Rightarrow> int \<times> int" where
  "priority_key x =
     (dict_get priority_order (priority_or_medium (priority_analysis x)) 2,
      (case priority_analysis x of None \<Rightarrow> 5
       | Some pa \<Rightarrow> (case urgency_score pa of None \<Rightarrow> 5 | Some s \<Rightarrow> s)))"

definition sort_by_priority :: "'a email_scheme list \<Rightarrow> 'a email_scheme list" where
  "sort_by_priority analyzed_emails = sorted_reverse priority_key analyzed_emails"

section \<open>ResponseDrafter (agents/response\_drafter.py)\<close>

definition select_tone :: "ustring \<Rightarrow> ustring \<Rightarrow> ustring" where
  "select_tone cat prio =
     (if cat = str ''urgent'' \<or> prio = str ''high'' then str ''formal''
      else if cat = str ''internal'' then str ''friendly''
      else str ''formal'')"

definition tone_guide_get :: "ustring \<Rightarrow> tone_guide" where
  "tone_guide_get t =
     dict_get [(str ''formal'', FormalGuide), (str ''friendly'', FriendlyGuide)] t FormalGuide"

definition generate_draft_with_llm ::
  "unicode \<Rightarrow> llm_handler \<Rightarrow> 'a email_scheme \<Rightarrow> classification option \<Rightarrow> priority_analysis option
   \<Rightarrow> ustring \<Rightarrow> nat \<Rightarrow> (error + ustring) \<times> nat" where
  "generate_draft_with_llm U L email cls pa t n =
     (let body_preview = (if 600 < length (body email) then take 600 (body email) else body email);
          cat = category_or_work cls;
          prio = priority_or_medium pa;
          prompt = DraftPrompt (sender email) (subject email) body_preview cat prio (tone_guide_get t)
      in case generate U L prompt 500 (dbl (7 / 10)) (Some DrafterSystem) n of
           (Inl e, n') \<Rightarrow> (Inl (ValueError (DraftLLMError e)), n')
         | (Inr d, n') \<Rightarrow> (Inr (strip U d), n'))"

definition no_response_reason :: ustring where
  "no_response_reason =
     [45813, 48320, 51060, 32, 54596, 50836, 54616, 51648, 32, 50506, 51008, 32,
      51060, 47700, 51068, 51077, 45768, 45796, 46]"

definition drafted_reason :: ustring where
  "drafted_reason =
     [45813, 48320, 32, 52488, 50504, 51060, 32, 49373, 49457, 46104, 50632, 49845,
      45768, 45796, 46]"

definition draft_response ::
  "unicode \<Rightarrow> llm_handler \<Rightarrow> 'a email_scheme \<Rightarrow> classification option \<Rightarrow> priority_analysis option
   \<Rightarrow> nat \<Rightarrow> (error + response_draft) \<times> nat" where
  "draft_response U L email cls pa n =
     (let cat = category_or_work cls;
          prio = priority_or_medium pa
      in if cat \<in> set [str ''spam'', str ''marketing'']
         then (Inr \<lparr>draft = None, tone = None, suggested_subject = None,
                     should_respond = Some False, draft_reason = no_response_reason\<rparr>, n)
         else (let t = select_tone cat prio
               in case generate_draft_with_llm U L email cls pa t n of
                    (Inl e, n') \<Rightarrow> (Inl e, n')
                  | (Inr d, n') \<Rightarrow>
                      if d = [] then (Inl (ValueError DraftFailed), n')
                      else (Inr \<lparr>draft = Some d, tone = Some t,
                                  suggested_subject = Some (str ''Re: '' @ subject email),
                                  should_respond = Some True, draft_reason = drafted_reason\<rparr>, n')))"







text \<open>
  \<open>refine_draft\<close> catches every exception of the model call; its result type still has
  the error case, so that "no exception escapes" is a statement about it.
\<close>

definition refine_draft ::
  "unicode \<Rightarrow> llm_handler \<Rightarrow> ustring \<Rightarrow> ustring \<Rightarrow> nat \<Rightarrow> (error + ustring) \<times> nat" where
  "refine_draft U L original_draft user_feedback n =
     (case generate U L (RefinePrompt original_draft user_feedback) 500 (dbl (7 / 10)) None n of
        (Inl e, n') \<Rightarrow> (Inr original_draft, n')
      | (Inr refined, n') \<Rightarrow> (Inr (strip U refined), n'))"

text \<open>The request that \<open>refine_draft\<close> hands to the client: one user message, no system prompt.\<close>

definition refine_request :: "llm_handler \<Rightarrow> ustring \<Rightarrow> ustring \<Rightarrow> api_request" where
  "refine_request L original_draft user_feedback =
     \<lparr>model = model_name L, messages = [(User, RefinePrompt original_draft user_feedback)],
      max_tokens = 500, temperature = dbl (7 / 10)\<rparr>"

section \<open>The sort keys as the specification words them\<close>

text \<open>
  The priority and the urgency score a record is sorted by, with the defaults of the
  source for a record that lacks them.
\<close>

definition effective_priority :: "'a email_scheme \<Rightarrow> ustring" where
  "effective_priority x = priority_or_medium (priority_analysis x)"

definition effective_urgency :: "'a email_scheme \<Rightarrow> int" where
  "effective_urgency x =
     (case priority_analysis x of None \<Rightarrow> 5
      | Some pa \<Rightarrow> (case urgency_score pa of None \<Rightarrow> 5 | Some s \<Rightarrow> s))"

section \<open>Accumulation as the specification words it\<close>


section \<open>The urgency score as the specification words it\<close>

text \<open>
  The base score by priority, the keyword table and "the keyword occurs, whatever the
  case of the text" are written here from the specification, to be compared with
  \<open>calculate_urgency_score\<close>.
\<close>

definition spec_base_score :: "ustring \<Rightarrow> int" where
  "spec_base_score prio =
     (if prio = str ''high'' then 8 else if prio = str ''medium'' then 5
      else if prio = str ''low'' then 2 else 5)"

definition spec_keyword_points :: "(ustring \<times> int) list" where
  "spec_keyword_points =
     [([44596, 44553], 2), ([51593, 49884], 2), (str ''urgent'', 2), (str ''asap'', 2),
      ([48520, 47564], 1), ([54872, 48520], 1), ([50724, 47448], 1), (str ''error'', 1),
      (str ''bug'', 1)]"

definition occurs_ci :: "unicode \<Rightarrow> ustring \<Rightarrow> ustring \<Rightarrow> bool" where
  "occurs_ci U keyword text = (\<exists>before after. lower U text = before @ keyword @ after)"

definition spec_urgency_score :: "unicode \<Rightarrow> ustring \<Rightarrow> ustring \<Rightarrow> ustring \<Rightarrow> int" where
  "spec_urgency_score U subj bdy prio =
     min 10 (spec_base_score prio +
             (\<Sum>(keyword, points) \<leftarrow> spec_keyword_points.
                if occurs_ci U keyword subj \<or> occurs_ci U keyword bdy then points else 0))"

section \<open>A concrete runtime for the examples\<close>

text \<open>
  Python's character tables restricted to ASCII and the Hangul syllables (U+AC00 to
  U+D7A3, word characters without case): on strings of these characters the three
  functions are Python's.
\<close>

definition basic_unicode :: unicode where
  "basic_unicode =
     \<lparr>isspace = (\<lambda>c. (9 \<le> c \<and> c \<le> 13) \<or> (28 \<le> c \<and> c \<le> 32)),
      isword = (\<lambda>c. (48 \<le> c \<and> c \<le> 57) \<or> (65 \<le> c \<and> c \<le> 90) \<or> c = 95
                     \<or> (97 \<le> c \<and> c \<le> 122) \<or> (44032 \<le> c \<and> c \<le> 55203)),
      lower = map (\<lambda>c. if 65 \<le> c \<and> c \<le> 90 then c + 32 else c)\<rparr>"

text \<open>
  A handler whose client answers the \<open>n\<close>-th call with the \<open>n\<close>-th entry of a script, an
  email, and three answers of the model: \<open>answer_work\<close> is the category label followed by
  \<open>:work\<close>, \<open>answer_maybe\<close> the same label followed by \<open>:maybe\<close>, \<open>answer_low\<close> the
  priority label followed by \<open>:low\<close>.
\<close>

definition scripted :: "(nat + ustring) list \<Rightarrow> llm_handler" where
  "scripted answers =
     \<lparr>client = (\<lambda>n req. if n < length answers then answers ! n else Inl 0),
      model_name = str ''gpt-3.5-turbo''\<rparr>"

definition example_email :: email where
  "example_email =
     \<lparr>subject = str ''Build error'', sender = str ''kim@example.com'',
      body = str ''A BUG, fix asap'',
      classification = None, priority_analysis = None, response_draft = None\<rparr>"

definition answer_work :: ustring where
  "answer_work = [52852, 53580, 44256, 47532, 58, 119, 111, 114, 107]"

definition answer_maybe :: ustring where
  "answer_maybe = [52852, 53580, 44256, 47532, 58, 109, 97, 121, 98, 101]"

definition answer_low :: ustring where
  "answer_low = [50864, 49440, 49692, 50948, 58, 108, 111, 119]"

definition classified_as :: "ustring \<Rightarrow> classification" where
  "classified_as c = \<lparr>category = Some c, confidence = dbl (85 / 100), reason = default_reason\<rparr>"

definition analyzed_as :: "ustring \<Rightarrow> int \<Rightarrow> priority_analysis" where
  "analyzed_as p s = \<lparr>priority = Some p, urgency_score = Some s, factors = []\<rparr>"

definition mail :: "ustring \<Rightarrow> int \<Rightarrow> email" where
  "mail p s = example_email\<lparr>priority_analysis := Some (analyzed_as p s)\<rparr>"


section \<open>Properties\<close>

subsection \<open>Strings\<close>

lemma str_in_iff: "str_in needle hay \<longleftrightarrow> (\<exists>ps ss. hay = ps @ needle @ ss)"
proof (induction hay)
  case Nil
  then show ?case by auto
next
  case (Cons c cs)
  show ?case
  proof
    assume "str_in needle (c # cs)"
    then consider "prefix needle (c # cs)" | "str_in needle cs" by auto
    then show "\<exists>ps ss. c # cs = ps @ needle @ ss"
    proof cases
      case 1
      then obtain ss where "c # cs = needle @ ss" by (auto simp: prefix_def)
      then have "c # cs = [] @ needle @ ss" by simp
      then show ?thesis by blast
    next
      case 2
      with Cons.IH obtain ps ss where "cs = ps @ needle @ ss" by blast
      then have "c # cs = (c # ps) @ needle @ ss" by simp
      then show ?thesis by blast
    qed
  next
    assume "\<exists>ps ss. c # cs = ps @ needle @ ss"
    then obtain ps ss where eq: "c # cs = ps @ needle @ ss" by blast
    show "str_in needle (c # cs)"
    proof (cases ps)
      case Nil
      with eq have "prefix needle (c # cs)" by (simp add: prefix_def)
      then show ?thesis by simp
    next
      case (Cons p ps')
      with eq have "cs = ps' @ needle @ ss" by simp
      with Cons.IH have "str_in needle cs" by blast
      then show ?thesis by simp
    qed
  qed
qed

lemma dropWhile_id: "xs = [] \<or> \<not> P (hd xs) \<Longrightarrow> dropWhile P xs = xs"
  by (cases xs) auto

lemma dropWhile_head: "dropWhile P xs = [] \<or> \<not> P (hd (dropWhile P xs))"
  using hd_dropWhile [of P xs] by blast

lemma dropWhile_last:
  assumes "dropWhile P xs \<noteq> []"
  shows "last (dropWhile P xs) = last xs"
proof -
  have "xs = takeWhile P xs @ dropWhile P xs" by simp
  then have "last xs = last (takeWhile P xs @ dropWhile P xs)" by simp
  also have "\<dots> = last (dropWhile P xs)" by (rule last_appendR) (rule assms)
  finally show ?thesis by simp
qed

lemma strip_ends:
  "strip U s = [] \<or> (\<not> isspace U (hd (strip U s)) \<and> \<not> isspace U (last (strip U s)))"
proof -
  let ?P = "isspace U"
  let ?t = "dropWhile ?P s"
  let ?u = "dropWhile ?P (rev ?t)"
  have s: "strip U s = rev ?u" by (simp add: strip_def)
  show ?thesis
  proof (cases "?u = []")
    case True
    with s show ?thesis by simp
  next
    case False
    have t: "?t \<noteq> []"
    proof
      assume "?t = []"
      then have "?u = []" by (simp only: rev.simps dropWhile.simps)
      with False show False by contradiction
    qed
    from False dropWhile_head [of ?P "rev ?t"] have hu: "\<not> ?P (hd ?u)" by blast
    from t dropWhile_head [of ?P s] have ht: "\<not> ?P (hd ?t)" by blast
    have "last ?u = last (rev ?t)" using False by (rule dropWhile_last)
    also have "\<dots> = hd ?t" using t by (simp add: last_rev)
    finally have lu: "\<not> ?P (last ?u)" using ht by simp
    have "hd (rev ?u) = last ?u" using False by (simp add: hd_rev)
    moreover have "last (rev ?u) = hd ?u" using False by (simp add: last_rev)
    ultimately show ?thesis using s hu lu by simp
  qed
qed

lemma strip_fixed:
  assumes "r = [] \<or> (\<not> isspace U (hd r) \<and> \<not> isspace U (last r))"
  shows "strip U r = r"
proof (cases "r = []")
  case True
  then show ?thesis by (simp add: strip_def)
next
  case False
  with assms have h: "\<not> isspace U (hd r)" and l: "\<not> isspace U (last r)" by auto
  have 1: "dropWhile (isspace U) r = r" using h by (simp add: dropWhile_id)
  have "hd (rev r) = last r" using False by (simp add: hd_rev)
  with l have 2: "dropWhile (isspace U) (rev r) = rev r" by (simp add: dropWhile_id)
  show ?thesis by (simp add: strip_def 1 2)
qed

lemma strip_idem: "strip U (strip U s) = strip U s"
  by (rule strip_fixed) (rule strip_ends)

subsection \<open>The model service and the examples\<close>

lemma generate_calls: "generate U L p m t s n = (r, n') \<Longrightarrow> n' = Suc n"
  by (auto simp: generate_def Let_def split: sum.splits)

lemma generate_failed:
  "\<forall>req. client L n req = Inl k \<Longrightarrow> generate U L p m t s n = (Inl (ClientError k), Suc n)"
  by (simp add: generate_def Let_def)

lemma generate_scripted:
  "n < length answers \<Longrightarrow> answers ! n = Inr content \<Longrightarrow>
   generate U (scripted answers) p m t s n = (Inr (strip U content), Suc n)"
  by (simp add: generate_def scripted_def Let_def)

lemma scripted_failing: "\<forall>req. client (scripted [Inl k]) 0 req = Inl k"
  by (simp add: scripted_def)

lemma strip_answers:
  "strip basic_unicode answer_work = answer_work"
  "strip basic_unicode answer_maybe = answer_maybe"
  "strip basic_unicode answer_low = answer_low"
  by (simp_all add: strip_def basic_unicode_def answer_work_def answer_maybe_def answer_low_def)

lemma lower_basic_id:
  "list_all (\<lambda>c. \<not> (65 \<le> c \<and> c \<le> 90)) s \<Longrightarrow> lower basic_unicode s = s"
  by (induction s) (simp_all add: basic_unicode_def)

lemma strip_empty: "strip U [] = []"
  by (simp add: strip_def)

text \<open>Two rules that let the simplifier run the matcher on a concrete input.\<close>

lemma try_lengths_weak_cong: "ks = ks' \<Longrightarrow> try_lengths f ks = try_lengths f ks'"
  by simp

lemma rx_match_item:
  "rx_match (Item q p grouped # r) s cap =
     try_lengths (\<lambda>k. rx_match r (drop k s) (if grouped then take k s else cap))
       (rev [(if q = Star then 0 else 1) ..<
             Suc (if q = Once then min 1 (length (takeWhile p s)) else length (takeWhile p s))])"
  by (simp add: Let_def)

lemma search_answer_work:
  "re_search (category_pattern basic_unicode) answer_work = Some (str ''work'')"
  "re_search (reason_pattern basic_unicode) answer_work = None"
  by (simp_all add: basic_unicode_def category_pattern_def reason_pattern_def lit_def colon_def
      word_group_def rest_of_line_group_def answer_work_def str_def rx_match_item
      del: rx_match.simps(2) cong: try_lengths_weak_cong)

lemma search_answer_maybe:
  "re_search (category_pattern basic_unicode) answer_maybe = Some (str ''maybe'')"
  "re_search (reason_pattern basic_unicode) answer_maybe = None"
  "re_search (priority_pattern basic_unicode) answer_maybe = None"
  "re_search (factors_pattern basic_unicode) answer_maybe = None"
  by (simp_all add: basic_unicode_def category_pattern_def reason_pattern_def
      priority_pattern_def factors_pattern_def lit_def colon_def rx_match_item
      word_group_def rest_of_line_group_def answer_maybe_def str_def
      del: rx_match.simps(2) cong: try_lengths_weak_cong)

lemma search_answer_low:
  "re_search (priority_pattern basic_unicode) answer_low = Some (str ''low'')"
  "re_search (factors_pattern basic_unicode) answer_low = None"
  by (simp_all add: basic_unicode_def priority_pattern_def factors_pattern_def lit_def colon_def
      word_group_def rest_of_line_group_def answer_low_def str_def rx_match_item
      del: rx_match.simps(2) cong: try_lengths_weak_cong)

lemma classify_with_llm_scripted_work:
  "n < length answers \<Longrightarrow> answers ! n = Inr answer_work \<Longrightarrow>
   classify_with_llm basic_unicode (scripted answers) email n
     = (Inr (Some (str ''work''), default_reason), Suc n)"
  by (simp add: classify_with_llm_def generate_scripted strip_answers search_answer_work
      lower_basic_id falsy_def str_def Let_def)

lemma classify_scripted_work:
  "n < length answers \<Longrightarrow> answers ! n = Inr answer_work \<Longrightarrow>
   classify basic_unicode (scripted answers) email n = (Inr (classified_as (str ''work'')), Suc n)"
  by (simp add: classify_def classify_with_llm_scripted_work classified_as_def falsy_def in_keys_def
      EMAIL_CATEGORIES_def str_def)

lemma classify_with_llm_scripted_maybe:
  "classify_with_llm basic_unicode (scripted [Inr answer_maybe]) email 0
     = (Inr (Some (str ''maybe''), default_reason), 1)"
  by (simp add: classify_with_llm_def generate_scripted strip_answers search_answer_maybe
      lower_basic_id falsy_def str_def Let_def)

lemma analyze_with_llm_scripted_maybe:
  "analyze_with_llm basic_unicode (scripted [Inr answer_maybe]) email cls 0 = (Inr (None, []), 1)"
  by (simp add: analyze_with_llm_def generate_scripted strip_answers search_answer_maybe
      strip_empty Let_def)

lemma analyze_scripted_low:
  "n < length answers \<Longrightarrow> answers ! n = Inr answer_low \<Longrightarrow>
   analyze basic_unicode (scripted answers) email cls n
     = (Inr \<lparr>priority = Some (str ''low''),
              urgency_score = Some (calculate_urgency_score basic_unicode email (str ''low'')),
              factors = []\<rparr>, Suc n)"
  by (simp add: analyze_def analyze_with_llm_def generate_scripted strip_answers search_answer_low
      lower_basic_id strip_empty PRIORITY_LEVELS_def str_def Let_def)

lemma example_urgency:
  "calculate_urgency_score basic_unicode example_email (str ''low'') = 6"
  unfolding calculate_urgency_score_def Let_def
  by (simp add: basic_unicode_def example_email_def dict_get_def base_scores_def
      urgent_keywords_def str_def)

subsection \<open>The urgency score\<close>

lemma keyword_loop_sum:
  "keyword_loop kws s b score =
     score + (\<Sum>(keyword, points) \<leftarrow> kws. if str_in keyword s \<or> str_in keyword b then points else 0)"
  by (induction kws arbitrary: score) auto

lemma keyword_loop_ge:
  "\<forall>(k, p) \<in> set kws. 0 \<le> p \<Longrightarrow> score \<le> keyword_loop kws s b score"
proof (induction kws arbitrary: score)
  case Nil
  then show ?case by simp
next
  case (Cons kp kws)
  obtain k p where kp: "kp = (k, p)" by (cases kp)
  from Cons.prems kp have p: "0 \<le> p" and rest: "\<forall>(k, p) \<in> set kws. 0 \<le> p" by auto
  let ?score' = "if str_in k s \<or> str_in k b then score + p else score"
  have "score \<le> ?score'" using p by simp
  also have "?score' \<le> keyword_loop kws s b ?score'" using Cons.IH [OF rest] .
  finally show ?case by (simp add: kp)
qed

lemma urgent_keywords_nonneg: "\<forall>(k, p) \<in> set urgent_keywords. 0 \<le> p"
  by (simp add: urgent_keywords_def)

lemma base_scores_ge: "2 \<le> dict_get base_scores prio 5"
  by (simp add: dict_get_def base_scores_def)

lemma str_in_occurs_ci: "str_in keyword (lower U text) = occurs_ci U keyword text"
  by (simp only: occurs_ci_def str_in_iff)

lemma keyword_table_spec: "urgent_keywords = spec_keyword_points"
  by (simp only: urgent_keywords_def spec_keyword_points_def)

lemma base_scores_spec: "dict_get base_scores prio 5 = spec_base_score prio"
  by (simp add: dict_get_def base_scores_def spec_base_score_def)

text \<open>
  Claim C2. For every email and every priority value, the urgency score is the minimum
  of 10 and the base score of the priority (high 8, medium 5, low 2, anything else 5)
  plus, for each keyword of the fixed table, its points, added once when the keyword
  occurs in the lower-cased subject or the lower-cased body, however often it occurs.
\<close>

theorem urgency_score_as_specified:
  "calculate_urgency_score U email prio = spec_urgency_score U (subject email) (body email) prio"
proof -
  have "calculate_urgency_score U email prio =
          min (keyword_loop urgent_keywords (lower U (subject email)) (lower U (body email))
                 (dict_get base_scores prio 5)) 10"
    by (simp only: calculate_urgency_score_def Let_def)
  also have "\<dots> = min 10 (spec_base_score prio +
             (\<Sum>(keyword, points) \<leftarrow> spec_keyword_points.
                if occurs_ci U keyword (subject email) \<or> occurs_ci U keyword (body email)
                then points else 0))"
    by (simp only: keyword_loop_sum str_in_occurs_ci keyword_table_spec base_scores_spec min.commute)
  finally show ?thesis by (simp only: spec_urgency_score_def)
qed

theorem urgency_score_as_specified_witness:
  "calculate_urgency_score basic_unicode example_email (str ''low'') = 6 \<and>
   spec_urgency_score basic_unicode (subject example_email) (body example_email) (str ''low'') = 6"
  using urgency_score_as_specified [of basic_unicode example_email "str ''low''"]
  by (simp add: example_urgency)

text \<open>
  Claim C5. For every priority value and every subject and body, the urgency score is an
  integer from 0 to 10.
\<close>

theorem urgency_score_range:
  "0 \<le> calculate_urgency_score U email prio \<and> calculate_urgency_score U email prio \<le> 10"
proof -
  have "2 \<le> dict_get base_scores prio 5" by (rule base_scores_ge)
  also have "\<dots> \<le> keyword_loop urgent_keywords (lower U (subject email)) (lower U (body email))
                      (dict_get base_scores prio 5)"
    by (rule keyword_loop_ge [OF urgent_keywords_nonneg])
  finally show ?thesis by (simp add: calculate_urgency_score_def Let_def)
qed

subsection \<open>Tone selection\<close>

text \<open>
  Claim C6. \<open>select_tone\<close> returns \<open>formal\<close> when the category is \<open>urgent\<close> or the priority is
  \<open>high\<close>, whatever the other argument; \<open>friendly\<close> when the category is \<open>internal\<close> and
  the priority is not \<open>high\<close>; and \<open>formal\<close> in every remaining case.
\<close>

theorem select_tone_cases:
  "(cat = str ''urgent'' \<or> prio = str ''high'' \<longrightarrow> select_tone cat prio = str ''formal'') \<and>
   (cat = str ''internal'' \<and> prio \<noteq> str ''high'' \<longrightarrow> select_tone cat prio = str ''friendly'') \<and>
   (cat \<noteq> str ''urgent'' \<and> prio \<noteq> str ''high'' \<and> cat \<noteq> str ''internal''
      \<longrightarrow> select_tone cat prio = str ''formal'')"
  by (simp add: select_tone_def str_def)

theorem select_tone_cases_witness:
  "select_tone (str ''urgent'') (str ''low'') = str ''formal'' \<and>
   select_tone (str ''work'') (str ''high'') = str ''formal'' \<and>
   select_tone (str ''internal'') (str ''medium'') = str ''friendly'' \<and>
   select_tone (str ''work'') (str ''medium'') = str ''formal''"
  using select_tone_cases [of "str ''urgent''" "str ''low''"]
    select_tone_cases [of "str ''work''" "str ''high''"]
    select_tone_cases [of "str ''internal''" "str ''medium''"]
    select_tone_cases [of "str ''work''" "str ''medium''"]
  by (simp add: str_def)

subsection \<open>Validation of the model's answer\<close>

lemma email_categories_set:
  "set EMAIL_CATEGORIES =
     {str ''urgent'', str ''work'', str ''marketing'', str ''internal'', str ''spam''}"
  by (simp add: EMAIL_CATEGORIES_def)

lemma priority_levels_set:
  "set (map fst PRIORITY_LEVELS) = {str ''high'', str ''medium'', str ''low''}"
  by (simp add: PRIORITY_LEVELS_def)

lemma classify_Inr:
  assumes "classify U L email n = (Inr c, n')"
  shows "\<exists>s. category c = Some s \<and> s \<in> set EMAIL_CATEGORIES"
proof -
  obtain r m where cw: "classify_with_llm U L email n = (r, m)" by (cases "classify_with_llm U L email n")
  show ?thesis
  proof (cases r)
    case (Inl e)
    with cw assms show ?thesis by (simp add: classify_def)
  next
    case (Inr cr)
    obtain cat rsn where cr: "cr = (cat, rsn)" by (cases cr)
    from assms cw Inr cr have ok: "\<not> (falsy cat \<or> \<not> in_keys cat EMAIL_CATEGORIES)" and c: "category c = cat"
      by (auto simp: classify_def split: if_splits)
    from ok obtain s where "cat = Some s" "s \<in> set EMAIL_CATEGORIES"
      by (cases cat) (auto simp: in_keys_def)
    with c show ?thesis by simp
  qed
qed

lemma classify_invalid:
  assumes "classify_with_llm U L email n = (Inr (cat, rsn), n')"
    and "cat = None \<or> cat \<notin> Some ` set EMAIL_CATEGORIES"
  shows "classify U L email n = (Inl (ValueError (InvalidCategory cat)), n')"
proof -
  from assms(2) have "falsy cat \<or> \<not> in_keys cat EMAIL_CATEGORIES"
    by (cases cat) (auto simp: falsy_def in_keys_def)
  with assms(1) show ?thesis by (simp add: classify_def)
qed

lemma analyze_Inr:
  assumes "analyze U L email cls n = (Inr pa, n')"
  shows "\<exists>s. priority pa = Some s \<and> s \<in> set (map fst PRIORITY_LEVELS)"
proof -
  obtain r m where aw: "analyze_with_llm U L email cls n = (r, m)" by (cases "analyze_with_llm U L email cls n")
  show ?thesis
  proof (cases r)
    case (Inl e)
    with aw assms show ?thesis by (simp add: analyze_def)
  next
    case (Inr pr)
    obtain prio fs where pr: "pr = (prio, fs)" by (cases pr)
    show ?thesis
    proof (cases prio)
      case None
      with assms aw Inr pr show ?thesis by (simp add: analyze_def)
    next
      case (Some p)
      with assms aw Inr pr have "p \<in> set (map fst PRIORITY_LEVELS)" and "priority pa = Some p"
        by (auto simp: analyze_def simp del: set_map split: if_splits)
      then show ?thesis by blast
    qed
  qed
qed

lemma analyze_invalid:
  assumes "analyze_with_llm U L email cls n = (Inr (prio, fs), n')"
    and "prio = None \<or> prio \<notin> Some ` set (map fst PRIORITY_LEVELS)"
  shows "analyze U L email cls n = (Inl (ValueError (InvalidPriority prio)), n')"
proof (cases prio)
  case None
  with assms(1) show ?thesis by (simp add: analyze_def)
next
  case (Some p)
  with assms(2) have "p \<notin> set (map fst PRIORITY_LEVELS)" by auto
  with assms(1) Some show ?thesis by (simp add: analyze_def)
qed

text \<open>
  Claim C1. For every message, a classification that \<open>classify\<close> returns has a category
  in the fixed set (urgent, work, marketing, internal, spam), and a priority analysis
  that \<open>analyze\<close> returns has a priority in the fixed set (high, medium, low). Whenever the
  value read from the model's answer is absent or outside the set, the stage raises a
  \<open>ValueError\<close>; no default is substituted.
\<close>

theorem results_in_fixed_sets:
  "(classify U L email n = (Inr c, n') \<longrightarrow>
      (\<exists>s. category c = Some s \<and>
           s \<in> {str ''urgent'', str ''work'', str ''marketing'', str ''internal'', str ''spam''})) \<and>
   (analyze U L email cls n = (Inr pa, n') \<longrightarrow>
      (\<exists>s. priority pa = Some s \<and> s \<in> {str ''high'', str ''medium'', str ''low''})) \<and>
   (classify_with_llm U L email n = (Inr (cat, rsn), n') \<and>
    (cat = None \<or>
     cat \<notin> Some ` {str ''urgent'', str ''work'', str ''marketing'', str ''internal'', str ''spam''})
      \<longrightarrow> classify U L email n = (Inl (ValueError (InvalidCategory cat)), n')) \<and>
   (analyze_with_llm U L email cls n = (Inr (prio, fs), n') \<and>
    (prio = None \<or> prio \<notin> Some ` {str ''high'', str ''medium'', str ''low''})
      \<longrightarrow> analyze U L email cls n = (Inl (ValueError (InvalidPriority prio)), n'))"
proof (intro conjI impI)
  assume "classify U L email n = (Inr c, n')"
  from classify_Inr [OF this]
  show "\<exists>s. category c = Some s \<and>
           s \<in> {str ''urgent'', str ''work'', str ''marketing'', str ''internal'', str ''spam''}"
    by (simp only: email_categories_set)
next
  assume "analyze U L email cls n = (Inr pa, n')"
  from analyze_Inr [OF this]
  show "\<exists>s. priority pa = Some s \<and> s \<in> {str ''high'', str ''medium'', str ''low''}"
    by (simp only: priority_levels_set)
next
  assume a: "classify_with_llm U L email n = (Inr (cat, rsn), n') \<and>
    (cat = None \<or>
     cat \<notin> Some ` {str ''urgent'', str ''work'', str ''marketing'', str ''internal'', str ''spam''})"
  then have "cat = None \<or> cat \<notin> Some ` set EMAIL_CATEGORIES" by (simp only: email_categories_set)
  with a show "classify U L email n = (Inl (ValueError (InvalidCategory cat)), n')"
    by (blast intro: classify_invalid)
next
  assume a: "analyze_with_llm U L email cls n = (Inr (prio, fs), n') \<and>
    (prio = None \<or> prio \<notin> Some ` {str ''high'', str ''medium'', str ''low''})"
  then have "prio = None \<or> prio \<notin> Some ` set (map fst PRIORITY_LEVELS)"
    by (simp only: priority_levels_set)
  with a show "analyze U L email cls n = (Inl (ValueError (InvalidPriority prio)), n')"
    by (blast intro: analyze_invalid)
qed

theorem results_in_fixed_sets_witness:
  "classify basic_unicode (scripted [Inr answer_work]) example_email 0
     = (Inr (classified_as (str ''work'')), 1) \<and>
   category (classified_as (str ''work'')) = Some (str ''work'') \<and>
   analyze basic_unicode (scripted [Inr answer_low]) example_email None 0
     = (Inr (analyzed_as (str ''low'') 6), 1) \<and>
   priority (analyzed_as (str ''low'') 6) = Some (str ''low'') \<and>
   classify_with_llm basic_unicode (scripted [Inr answer_maybe]) example_email 0
     = (Inr (Some (str ''maybe''), default_reason), 1) \<and>
   classify basic_unicode (scripted [Inr answer_maybe]) example_email 0
     = (Inl (ValueError (InvalidCategory (Some (str ''maybe'')))), 1) \<and>
   analyze_with_llm basic_unicode (scripted [Inr answer_maybe]) example_email None 0
     = (Inr (None, []), 1) \<and>
   analyze basic_unicode (scripted [Inr answer_maybe]) example_email None 0
     = (Inl (ValueError (InvalidPriority None)), 1)"
proof -
  have c: "classify basic_unicode (scripted [Inr answer_work]) example_email 0
             = (Inr (classified_as (str ''work'')), 1)"
    using classify_scripted_work [of 0 "[Inr answer_work]" example_email] by simp
  have a: "analyze basic_unicode (scripted [Inr answer_low]) example_email None 0
             = (Inr (analyzed_as (str ''low'') 6), 1)"
    using analyze_scripted_low [of 0 "[Inr answer_low]" example_email None]
    by (simp add: example_urgency analyzed_as_def)
  note good = results_in_fixed_sets [where U = basic_unicode and L = "scripted [Inr answer_work]"
      and email = example_email and n = 0 and c = "classified_as (str ''work'')" and n' = 1]
  note good' = results_in_fixed_sets [where U = basic_unicode and L = "scripted [Inr answer_low]"
      and email = example_email and n = 0 and cls = None and pa = "analyzed_as (str ''low'') 6"
      and n' = 1]
  note bad = results_in_fixed_sets [where U = basic_unicode and L = "scripted [Inr answer_maybe]"
      and email = example_email and n = 0 and n' = 1 and cls = None
      and cat = "Some (str ''maybe'')" and rsn = default_reason and prio = None and fs = "[]"]
  have m: "Some (str ''maybe'') \<notin>
      Some ` {str ''urgent'', str ''work'', str ''marketing'', str ''internal'', str ''spam''}"
    by (simp add: str_def)
  from good good' bad c a m show ?thesis
    by (simp add: classify_with_llm_scripted_maybe analyze_with_llm_scripted_maybe
        classified_as_def analyzed_as_def)
qed


subsection \<open>Drafting\<close>

lemma draft_short_circuit:
  assumes "category_or_work cls \<in> {str ''spam'', str ''marketing''}"
  shows "draft_response U L email cls pa n =
     (Inr \<lparr>draft = None, tone = None, suggested_subject = None, should_respond = Some False,
            draft_reason = no_response_reason\<rparr>, n)"
  using assms by (simp add: draft_response_def Let_def)

lemma generate_draft_calls:
  "generate_draft_with_llm U L email cls pa t n = (r, n') \<Longrightarrow> n' = Suc n"
  by (auto simp: generate_draft_with_llm_def Let_def split: prod.splits sum.splits
      dest: generate_calls)

lemma draft_success:
  assumes "category_or_work cls \<notin> {str ''spam'', str ''marketing''}"
    and "draft_response U L email cls pa n = (Inr d, n')"
  shows "should_respond d = Some True \<and> (\<exists>t. draft d = Some t \<and> t \<noteq> []) \<and>
         tone d = Some (select_tone (category_or_work cls) (priority_or_medium pa)) \<and>
         suggested_subject d = Some (str ''Re: '' @ subject email) \<and> n' = Suc n"
proof -
  let ?t = "select_tone (category_or_work cls) (priority_or_medium pa)"
  obtain r m where g: "generate_draft_with_llm U L email cls pa ?t n = (r, m)"
    by (cases "generate_draft_with_llm U L email cls pa ?t n")
  then have m: "m = Suc n" by (rule generate_draft_calls)
  show ?thesis
  proof (cases r)
    case (Inl e)
    with assms g show ?thesis by (simp add: draft_response_def Let_def)
  next
    case (Inr d0)
    with assms g m show ?thesis
      by (auto simp: draft_response_def Let_def split: if_splits)
  qed
qed

lemma strip_hello: "strip basic_unicode (str '' Hello '') = str ''Hello''"
  by (simp add: strip_def basic_unicode_def str_def)

lemma strip_stripped_hello: "strip basic_unicode (str ''Hello'') = str ''Hello''"
  by (simp add: strip_def basic_unicode_def str_def)

lemma draft_response_scripted_hello:
  "draft_response basic_unicode (scripted [Inr (str '' Hello '')]) example_email
     (Some (classified_as (str ''work''))) (Some (analyzed_as (str ''high'') 9)) 0
   = (Inr \<lparr>draft = Some (str ''Hello''), tone = Some (str ''formal''),
            suggested_subject = Some (str ''Re: Build error''), should_respond = Some True,
            draft_reason = drafted_reason\<rparr>, 1)"
proof -
  have g: "generate_draft_with_llm basic_unicode (scripted [Inr (str '' Hello '')]) example_email
             (Some (classified_as (str ''work''))) (Some (analyzed_as (str ''high'') 9))
             (str ''formal'') 0 = (Inr (str ''Hello''), 1)"
    by (simp add: generate_draft_with_llm_def generate_scripted strip_hello strip_stripped_hello
        Let_def)
  have c: "category_or_work (Some (classified_as (str ''work''))) = str ''work''"
    by (simp add: category_or_work_def classified_as_def)
  have p: "priority_or_medium (Some (analyzed_as (str ''high'') 9)) = str ''high''"
    by (simp add: priority_or_medium_def analyzed_as_def)
  have t: "select_tone (str ''work'') (str ''high'') = str ''formal''"
    by (simp add: select_tone_def)
  have s: "str ''Re: '' @ subject example_email = str ''Re: Build error''"
    by (simp add: example_email_def str_def)
  have ne: "str ''work'' \<notin> set [str ''spam'', str ''marketing''] \<and> str ''Hello'' \<noteq> []"
    by (simp add: str_def)
  show ?thesis
    unfolding draft_response_def Let_def c p t g using ne s by simp
qed

text \<open>
  Claim C4. For every message whose category is \<open>spam\<close> or \<open>marketing\<close>,
  \<open>draft_response\<close> returns the record with \<open>should_respond\<close> false, \<open>draft\<close>, \<open>tone\<close>
  and \<open>suggested_subject\<close> null and the fixed reason, and makes no model call (the call
  counter is unchanged). For any other category, a returned record has \<open>should_respond\<close>
  true, a non-empty draft, the selected tone, and the subject prefixed with \<open>Re: \<close>, after
  exactly one model call.
\<close>

theorem draft_response_cases:
  "(category_or_work cls \<in> {str ''spam'', str ''marketing''} \<longrightarrow>
      draft_response U L email cls pa n =
        (Inr \<lparr>draft = None, tone = None, suggested_subject = None, should_respond = Some False,
               draft_reason = no_response_reason\<rparr>, n)) \<and>
   (category_or_work cls \<notin> {str ''spam'', str ''marketing''} \<and>
    draft_response U L email cls pa n = (Inr d, n') \<longrightarrow>
      should_respond d = Some True \<and> (\<exists>t. draft d = Some t \<and> t \<noteq> []) \<and>
      tone d = Some (select_tone (category_or_work cls) (priority_or_medium pa)) \<and>
      suggested_subject d = Some (str ''Re: '' @ subject email) \<and> n' = Suc n)"
  using draft_short_circuit [of cls U L email pa n] draft_success [of cls U L email pa n d n']
  by blast

theorem draft_response_cases_witness:
  "draft_response basic_unicode (scripted []) example_email (Some (classified_as (str ''spam'')))
     None 0
   = (Inr \<lparr>draft = None, tone = None, suggested_subject = None, should_respond = Some False,
            draft_reason = no_response_reason\<rparr>, 0) \<and>
   draft_response basic_unicode (scripted [Inr (str '' Hello '')]) example_email
     (Some (classified_as (str ''work''))) (Some (analyzed_as (str ''high'') 9)) 0
   = (Inr \<lparr>draft = Some (str ''Hello''), tone = Some (str ''formal''),
            suggested_subject = Some (str ''Re: Build error''), should_respond = Some True,
            draft_reason = drafted_reason\<rparr>, 1) \<and>
   tone \<lparr>draft = Some (str ''Hello''), tone = Some (str ''formal''),
         suggested_subject = Some (str ''Re: Build error''), should_respond = Some True,
         draft_reason = drafted_reason\<rparr>
     = Some (select_tone (category_or_work (Some (classified_as (str ''work''))))
               (priority_or_medium (Some (analyzed_as (str ''high'') 9))))"
proof -
  let ?d = "\<lparr>draft = Some (str ''Hello''), tone = Some (str ''formal''),
             suggested_subject = Some (str ''Re: Build error''), should_respond = Some True,
             draft_reason = drafted_reason\<rparr>"
  have spam: "category_or_work (Some (classified_as (str ''spam''))) \<in> {str ''spam'', str ''marketing''}"
    by (simp add: category_or_work_def classified_as_def)
  have work: "category_or_work (Some (classified_as (str ''work''))) \<notin> {str ''spam'', str ''marketing''}"
    by (simp add: category_or_work_def classified_as_def str_def)
  from spam
    draft_response_cases [where cls = "Some (classified_as (str ''spam''))" and U = basic_unicode
      and L = "scripted []" and email = example_email and pa = None and n = 0]
  have 1: "draft_response basic_unicode (scripted []) example_email
      (Some (classified_as (str ''spam''))) None 0
      = (Inr \<lparr>draft = None, tone = None, suggested_subject = None, should_respond = Some False,
               draft_reason = no_response_reason\<rparr>, 0)"
    by blast
  from work draft_response_scripted_hello
    draft_response_cases [where cls = "Some (classified_as (str ''work''))" and U = basic_unicode
      and L = "scripted [Inr (str '' Hello '')]" and email = example_email
      and pa = "Some (analyzed_as (str ''high'') 9)" and n = 0 and n' = 1 and d = ?d]
  have 2: "tone ?d = Some (select_tone (category_or_work (Some (classified_as (str ''work''))))
               (priority_or_medium (Some (analyzed_as (str ''high'') 9))))"
    by blast
  from 1 draft_response_scripted_hello 2 show ?thesis by (intro conjI)
qed

subsection \<open>Failure of the model call\<close>

lemma refine_failure:
  "client L n (refine_request L d f) = Inl k \<Longrightarrow> refine_draft U L d f n = (Inr d, Suc n)"
  by (simp add: refine_draft_def generate_def refine_request_def Let_def)

lemma refine_success:
  "client L n (refine_request L d f) = Inr content \<Longrightarrow>
     refine_draft U L d f n = (Inr (strip U content), Suc n)"
  by (simp add: refine_draft_def generate_def refine_request_def Let_def strip_idem)

lemma refine_no_exception: "\<exists>s. refine_draft U L d f n = (Inr s, Suc n)"
  by (cases "client L n (refine_request L d f)") (auto dest: refine_failure refine_success)

lemma classify_fatal:
  "\<forall>req. client L n req = Inl k \<Longrightarrow>
     classify U L email n = (Inl (ValueError (ClassifyLLMError (ClientError k))), Suc n)"
  by (simp add: classify_def classify_with_llm_def generate_failed Let_def)

lemma analyze_fatal:
  "\<forall>req. client L n req = Inl k \<Longrightarrow>
     analyze U L email cls n = (Inl (ValueError (PriorityLLMError (ClientError k))), Suc n)"
  by (simp add: analyze_def analyze_with_llm_def generate_failed Let_def)

lemma draft_fatal:
  "\<forall>req. client L n req = Inl k \<Longrightarrow> category_or_work cls \<notin> {str ''spam'', str ''marketing''} \<Longrightarrow>
     draft_response U L email cls pa n = (Inl (ValueError (DraftLLMError (ClientError k))), Suc n)"
  by (simp add: draft_response_def generate_draft_with_llm_def generate_failed Let_def)

text \<open>
  Claim C9. For every original draft and feedback: if the model call of \<open>refine_draft\<close>
  fails, \<open>refine_draft\<close> returns the original draft unchanged; if it succeeds,
  \<open>refine_draft\<close> returns the model's text without surrounding whitespace; no exception
  escapes either way. It is the only operation for which a failed model call is not
  fatal: with a failing client, \<open>classify\<close>, \<open>analyze\<close> and \<open>draft_response\<close> (outside
  its short circuit) raise a \<open>ValueError\<close>.
\<close>

theorem refine_draft_falls_back:
  "(client L n (refine_request L d f) = Inl k \<longrightarrow> refine_draft U L d f n = (Inr d, Suc n)) \<and>
   (client L n (refine_request L d f) = Inr content \<longrightarrow>
      refine_draft U L d f n = (Inr (strip U content), Suc n)) \<and>
   (\<exists>s. refine_draft U L d f n = (Inr s, Suc n)) \<and>
   ((\<forall>req. client L n req = Inl k) \<longrightarrow>
      classify U L email n = (Inl (ValueError (ClassifyLLMError (ClientError k))), Suc n) \<and>
      analyze U L email cls n = (Inl (ValueError (PriorityLLMError (ClientError k))), Suc n) \<and>
      (category_or_work cls \<notin> {str ''spam'', str ''marketing''} \<longrightarrow>
         draft_response U L email cls pa n
           = (Inl (ValueError (DraftLLMError (ClientError k))), Suc n)))"
  using refine_failure [of L n d f k U] refine_success [of L n d f content U]
    refine_no_exception [of U L d f n] classify_fatal [of L n k U email]
    analyze_fatal [of L n k U email cls] draft_fatal [of L n k cls U email pa]
  by blast

theorem refine_draft_falls_back_witness:
  "refine_draft basic_unicode (scripted [Inl 7]) (str ''Draft'') (str ''shorter'') 0
     = (Inr (str ''Draft''), 1) \<and>
   refine_draft basic_unicode (scripted [Inr (str '' Hello '')]) (str ''Draft'') (str ''shorter'') 0
     = (Inr (str ''Hello''), 1) \<and>
   classify basic_unicode (scripted [Inl 7]) example_email 0
     = (Inl (ValueError (ClassifyLLMError (ClientError 7))), 1) \<and>
   analyze basic_unicode (scripted [Inl 7]) example_email None 0
     = (Inl (ValueError (PriorityLLMError (ClientError 7))), 1) \<and>
   draft_response basic_unicode (scripted [Inl 7]) example_email None None 0
     = (Inl (ValueError (DraftLLMError (ClientError 7))), 1)"
proof -
  have fail: "client (scripted [Inl 7]) 0 (refine_request (scripted [Inl 7]) (str ''Draft'') (str ''shorter'')) = Inl 7"
    by (simp add: scripted_def)
  have ok: "client (scripted [Inr (str '' Hello '')]) 0
      (refine_request (scripted [Inr (str '' Hello '')]) (str ''Draft'') (str ''shorter''))
      = Inr (str '' Hello '')"
    by (simp add: scripted_def)
  have work: "category_or_work None \<notin> {str ''spam'', str ''marketing''}"
    by (simp add: category_or_work_def str_def)
  from fail work scripted_failing [of 7]
    refine_draft_falls_back [where L = "scripted [Inl 7]" and n = 0 and d = "str ''Draft''"
      and f = "str ''shorter''" and k = 7 and U = basic_unicode and email = example_email
      and cls = None and pa = None]
  have 1: "refine_draft basic_unicode (scripted [Inl 7]) (str ''Draft'') (str ''shorter'') 0
             = (Inr (str ''Draft''), 1)"
    and 2: "classify basic_unicode (scripted [Inl 7]) example_email 0
             = (Inl (ValueError (ClassifyLLMError (ClientError 7))), 1)"
    and 3: "analyze basic_unicode (scripted [Inl 7]) example_email None 0
             = (Inl (ValueError (PriorityLLMError (ClientError 7))), 1)"
    and 4: "draft_response basic_unicode (scripted [Inl 7]) example_email None None 0
             = (Inl (ValueError (DraftLLMError (ClientError 7))), 1)"
    by simp_all
  from ok refine_draft_falls_back [where L = "scripted [Inr (str '' Hello '')]" and n = 0
      and d = "str ''Draft''" and f = "str ''shorter''" and content = "str '' Hello ''"
      and U = basic_unicode and k = 7 and email = example_email and cls = None and pa = None]
  have 5: "refine_draft basic_unicode (scripted [Inr (str '' Hello '')]) (str ''Draft'')
             (str ''shorter'') 0 = (Inr (str ''Hello''), 1)"
    by (simp add: strip_hello)
  from 1 2 3 4 5 show ?thesis by simp
qed

subsection \<open>Sorting by priority\<close>

lemma sorted_reverse_mset: "mset (sorted_reverse f xs) = mset xs"
  by (simp add: sorted_reverse_def)

lemma sorted_reverse_descending: "sorted_wrt (\<lambda>a b. f b \<le> f a) (sorted_reverse f xs)"
proof -
  have "sorted (map f (sort_key f (rev xs)))" by (rule sorted_sort_key)
  then have "sorted_wrt (\<lambda>a b. f a \<le> f b) (sort_key f (rev xs))" by (simp only: sorted_map)
  then show ?thesis by (simp only: sorted_reverse_def sorted_wrt_rev)
qed

lemma sorted_reverse_stable:
  "filter (\<lambda>x. f x = k) (sorted_reverse f xs) = filter (\<lambda>x. f x = k) xs"
proof -
  have "filter (\<lambda>x. f x = k) (sorted_reverse f xs)
          = rev (filter (\<lambda>x. f x = k) (sort_key f (rev xs)))"
    by (simp only: sorted_reverse_def rev_filter)
  also have "\<dots> = rev (filter (\<lambda>x. f x = k) (rev xs))" by (simp only: sort_key_stable)
  also have "\<dots> = filter (\<lambda>x. f x = k) xs" by (simp only: rev_filter rev_rev_ident)
  finally show ?thesis .
qed

lemma weight_high:
  "dict_get priority_order p 2 = 3 \<longleftrightarrow> p = str ''high''"
  by (simp add: dict_get_def priority_order_def str_def)

lemma weight_low:
  "dict_get priority_order p 2 = 1 \<longleftrightarrow> p = str ''low''"
  by (simp add: dict_get_def priority_order_def str_def)

lemma weight_range: "1 \<le> dict_get priority_order p 2 \<and> dict_get priority_order p 2 \<le> 3"
  by (simp add: dict_get_def priority_order_def)

lemma priority_key_eq:
  "priority_key x = (dict_get priority_order (effective_priority x) 2, effective_urgency x)"
  by (simp add: priority_key_def effective_priority_def effective_urgency_def)

lemma key_order:
  assumes "priority_key b \<le> priority_key a"
  shows "(effective_priority b = str ''high'' \<longrightarrow> effective_priority a = str ''high'') \<and>
         (effective_priority a = str ''low'' \<longrightarrow> effective_priority b = str ''low'') \<and>
         (effective_priority a = effective_priority b \<longrightarrow> effective_urgency b \<le> effective_urgency a)"
proof -
  let ?wa = "dict_get priority_order (effective_priority a) 2"
  let ?wb = "dict_get priority_order (effective_priority b) 2"
  from assms have le: "?wb < ?wa \<or> (?wb = ?wa \<and> effective_urgency b \<le> effective_urgency a)"
    by (auto simp: priority_key_eq)
  have ra: "1 \<le> ?wa \<and> ?wa \<le> 3" and rb: "1 \<le> ?wb \<and> ?wb \<le> 3" by (rule weight_range)+
  have 1: "effective_priority b = str ''high'' \<longrightarrow> effective_priority a = str ''high''"
  proof
    assume "effective_priority b = str ''high''"
    then have "?wb = 3" by (simp only: weight_high)
    with le ra have "?wa = 3" by linarith
    then show "effective_priority a = str ''high''" by (simp only: weight_high)
  qed
  have 2: "effective_priority a = str ''low'' \<longrightarrow> effective_priority b = str ''low''"
  proof
    assume "effective_priority a = str ''low''"
    then have "?wa = 1" by (simp only: weight_low)
    with le rb have "?wb = 1" by linarith
    then show "effective_priority b = str ''low''" by (simp only: weight_low)
  qed
  have 3: "effective_priority a = effective_priority b \<longrightarrow> effective_urgency b \<le> effective_urgency a"
    using le by auto
  from 1 2 3 show ?thesis by blast
qed

lemma sort_two:
  assumes "priority_key y < priority_key x"
  shows "sort_by_priority [y, x] = [x, y] \<and> sort_by_priority [x, y] = [x, y]"
  using assms by (auto simp: sort_by_priority_def sorted_reverse_def)

lemma mail_keys:
  "effective_priority (mail p s) = p" "effective_urgency (mail p s) = s"
  "priority_key (mail p s) = (dict_get priority_order p 2, s)"
  by (simp_all add: effective_priority_def effective_urgency_def priority_key_def mail_def
      analyzed_as_def priority_or_medium_def)

lemma example_weights:
  "dict_get priority_order (str ''high'') 2 = 3"
  "dict_get priority_order (str ''medium'') 2 = 2"
  "dict_get priority_order (str ''low'') 2 = 1"
  by (simp_all add: dict_get_def priority_order_def str_def)

lemma sort_example:
  "sort_by_priority [mail (str ''medium'') 9, mail (str ''high'') 5, mail (str ''low'') 3,
                     mail (str ''high'') 7]
   = [mail (str ''high'') 7, mail (str ''high'') 5, mail (str ''medium'') 9, mail (str ''low'') 3]"
  by (simp add: sort_by_priority_def sorted_reverse_def mail_keys example_weights)

text \<open>
  Claim C3. For every list of analysed records, \<open>sort_by_priority\<close> returns a permutation
  of the input in which no record of priority \<open>high\<close> comes after a record of another
  priority and no record of priority \<open>low\<close> comes before a record of another priority
  (so every \<open>high\<close> record precedes every \<open>medium\<close> record, which precedes every \<open>low\<close>
  record), and records of equal priority are in descending order of urgency score.
  Records with the same two sort keys keep their input order. A record with priority
  \<open>high\<close> and urgency 5 sorts before one with priority \<open>medium\<close> and urgency 9.
\<close>

theorem sort_by_priority_ordered:
  "mset (sort_by_priority xs) = mset xs \<and>
   (\<forall>i j. i < j \<and> j < length xs \<longrightarrow>
      (effective_priority (sort_by_priority xs ! j) = str ''high''
         \<longrightarrow> effective_priority (sort_by_priority xs ! i) = str ''high'') \<and>
      (effective_priority (sort_by_priority xs ! i) = str ''low''
         \<longrightarrow> effective_priority (sort_by_priority xs ! j) = str ''low'') \<and>
      (effective_priority (sort_by_priority xs ! i) = effective_priority (sort_by_priority xs ! j)
         \<longrightarrow> effective_urgency (sort_by_priority xs ! j) \<le> effective_urgency (sort_by_priority xs ! i))) \<and>
   (\<forall>k. filter (\<lambda>x. priority_key x = k) (sort_by_priority xs) = filter (\<lambda>x. priority_key x = k) xs) \<and>
   (effective_priority m1 = str ''high'' \<and> effective_urgency m1 = 5 \<and>
    effective_priority m2 = str ''medium'' \<and> effective_urgency m2 = 9
      \<longrightarrow> sort_by_priority [m2, m1] = [m1, m2] \<and> sort_by_priority [m1, m2] = [m1, m2])"
proof (intro conjI allI impI)
  show "mset (sort_by_priority xs) = mset xs"
    by (simp only: sort_by_priority_def sorted_reverse_mset)
next
  fix k
  show "filter (\<lambda>x. priority_key x = k) (sort_by_priority xs) = filter (\<lambda>x. priority_key x = k) xs"
    by (simp only: sort_by_priority_def sorted_reverse_stable)
next
  assume a: "effective_priority m1 = str ''high'' \<and> effective_urgency m1 = 5 \<and>
    effective_priority m2 = str ''medium'' \<and> effective_urgency m2 = 9"
  then have "priority_key m2 < priority_key m1"
    by (simp add: priority_key_eq dict_get_def priority_order_def str_def)
  then have "sort_by_priority [m2, m1] = [m1, m2] \<and> sort_by_priority [m1, m2] = [m1, m2]"
    by (rule sort_two)
  then show "sort_by_priority [m2, m1] = [m1, m2]" and "sort_by_priority [m1, m2] = [m1, m2]"
    by simp_all
next
  fix i j
  assume ij: "i < j \<and> j < length xs"
  let ?r = "sort_by_priority xs"
  have len: "length ?r = length xs" by (simp add: sort_by_priority_def sorted_reverse_def)
  have "sorted_wrt (\<lambda>a b. priority_key b \<le> priority_key a) ?r"
    by (simp only: sort_by_priority_def sorted_reverse_descending)
  with ij len have le: "priority_key (?r ! j) \<le> priority_key (?r ! i)"
    by (simp add: sorted_wrt_iff_nth_less)
  from key_order [OF le]
  show "effective_priority (?r ! j) = str ''high'' \<Longrightarrow> effective_priority (?r ! i) = str ''high''"
    and "effective_priority (?r ! i) = str ''low'' \<Longrightarrow> effective_priority (?r ! j) = str ''low''"
    and "effective_priority (?r ! i) = effective_priority (?r ! j)
         \<Longrightarrow> effective_urgency (?r ! j) \<le> effective_urgency (?r ! i)"
    by blast+
qed

theorem sort_by_priority_ordered_witness:
  "sort_by_priority [mail (str ''medium'') 9, mail (str ''high'') 5, mail (str ''low'') 3,
                     mail (str ''high'') 7]
     = [mail (str ''high'') 7, mail (str ''high'') 5, mail (str ''medium'') 9, mail (str ''low'') 3] \<and>
   effective_priority (mail (str ''high'') 5) = str ''high'' \<and>
   effective_priority (mail (str ''high'') 7) = str ''high'' \<and>
   effective_urgency (mail (str ''high'') 5) \<le> effective_urgency (mail (str ''high'') 7) \<and>
   effective_priority (mail (str ''medium'') 9) = str ''medium'' \<and>
   sort_by_priority [mail (str ''medium'') 9, mail (str ''high'') 5]
     = [mail (str ''high'') 5, mail (str ''medium'') 9]"
proof -
  let ?xs = "[mail (str ''medium'') 9, mail (str ''high'') 5, mail (str ''low'') 3,
              mail (str ''high'') 7]"
  note t = sort_by_priority_ordered [of ?xs "mail (str ''high'') 5" "mail (str ''medium'') 9"]
  from t have ord: "\<forall>i j. i < j \<and> j < length ?xs \<longrightarrow>
      (effective_priority (sort_by_priority ?xs ! j) = str ''high''
         \<longrightarrow> effective_priority (sort_by_priority ?xs ! i) = str ''high'') \<and>
      (effective_priority (sort_by_priority ?xs ! i) = str ''low''
         \<longrightarrow> effective_priority (sort_by_priority ?xs ! j) = str ''low'') \<and>
      (effective_priority (sort_by_priority ?xs ! i) = effective_priority (sort_by_priority ?xs ! j)
         \<longrightarrow> effective_urgency (sort_by_priority ?xs ! j)
               \<le> effective_urgency (sort_by_priority ?xs ! i))"
    by (rule conjunct1 [OF conjunct2])
  from t have two: "effective_priority (mail (str ''high'') 5) = str ''high'' \<and>
      effective_urgency (mail (str ''high'') 5) = 5 \<and>
      effective_priority (mail (str ''medium'') 9) = str ''medium'' \<and>
      effective_urgency (mail (str ''medium'') 9) = 9
      \<longrightarrow> sort_by_priority [mail (str ''medium'') 9, mail (str ''high'') 5]
            = [mail (str ''high'') 5, mail (str ''medium'') 9] \<and>
          sort_by_priority [mail (str ''high'') 5, mail (str ''medium'') 9]
            = [mail (str ''high'') 5, mail (str ''medium'') 9]"
    by (rule conjunct2 [OF conjunct2 [OF conjunct2]])
  have "(0::nat) < 1 \<and> 1 < length ?xs" by simp
  with ord have
    "(effective_priority (sort_by_priority ?xs ! 1) = str ''high''
         \<longrightarrow> effective_priority (sort_by_priority ?xs ! 0) = str ''high'') \<and>
     (effective_priority (sort_by_priority ?xs ! 0) = effective_priority (sort_by_priority ?xs ! 1)
         \<longrightarrow> effective_urgency (sort_by_priority ?xs ! 1)
               \<le> effective_urgency (sort_by_priority ?xs ! 0))"
    by blast
  then have "effective_priority (mail (str ''high'') 7) = str ''high'' \<and>
     effective_urgency (mail (str ''high'') 5) \<le> effective_urgency (mail (str ''high'') 7)"
    by (simp add: sort_example mail_keys)
  with two sort_example show ?thesis by (simp add: mail_keys)
qed


subsection \<open>Statistics\<close>

lemma count_in_keys: "map fst (count_in stats k) = map fst stats"
proof (cases "map_of stats k")
  case None
  then show ?thesis by (simp add: count_in_def)
next
  case (Some v)
  then have "k \<in> set (map fst stats)" by (auto dest: map_of_SomeD intro: rev_image_eqI)
  with Some show ?thesis by (simp add: count_in_def AList.update_keys del: set_map)
qed

lemma count_in_lookup:
  "map_of (count_in stats k) k' =
     (if k' = k then map_option (\<lambda>v. v + 1) (map_of stats k) else map_of stats k')"
  by (cases "map_of stats k") (simp_all add: count_in_def AList.update_conv')

lemma count_in_sum:
  "sum_list (map snd (count_in stats k)) =
     sum_list (map snd stats) + (if k \<in> set (map fst stats) then 1 else 0)"
proof (induction stats)
  case Nil
  then show ?case by (simp add: count_in_def)
next
  case (Cons kv stats)
  obtain k' v' where kv: "kv = (k', v')" by (cases kv)
  show ?case
  proof (cases "k' = k")
    case True
    then show ?thesis by (simp add: kv count_in_def)
  next
    case False
    have "count_in (kv # stats) k = kv # count_in stats k"
      using False by (simp add: kv count_in_def split: option.splits)
    with Cons.IH False show ?thesis by (simp add: kv)
  qed
qed

lemma count_in_skip: "k \<notin> set (map fst stats) \<Longrightarrow> count_in stats k = stats"
proof -
  assume "k \<notin> set (map fst stats)"
  then have "map_of stats k = None" by (simp add: map_of_eq_None_iff)
  then show ?thesis by (simp add: count_in_def)
qed

lemma category_loop_keys: "map fst (category_stats_loop es stats) = map fst stats"
  by (induction es arbitrary: stats) (simp_all add: count_in_keys)

lemma category_loop_lookup:
  "map_of (category_stats_loop es stats) k =
     map_option (\<lambda>v. v + int (length (filter (\<lambda>e. category_or_work (classification e) = k) es)))
       (map_of stats k)"
proof (induction es arbitrary: stats)
  case Nil
  then show ?case by (simp add: option.map_ident)
next
  case (Cons e es)
  show ?case
    by (cases "map_of stats k") (auto simp: Cons.IH count_in_lookup)
qed

lemma category_loop_sum:
  "sum_list (map snd (category_stats_loop es stats)) =
     sum_list (map snd stats) +
     int (length (filter (\<lambda>e. category_or_work (classification e) \<in> set (map fst stats)) es))"
proof (induction es arbitrary: stats)
  case Nil
  then show ?case by simp
next
  case (Cons e es)
  show ?case
    by (simp only: category_stats_loop.simps Cons.IH count_in_keys count_in_sum) simp
qed

lemma category_loop_filter:
  "category_stats_loop es stats =
     category_stats_loop
       (filter (\<lambda>e. category_or_work (classification e) \<in> set (map fst stats)) es) stats"
proof (induction es arbitrary: stats)
  case Nil
  then show ?case by simp
next
  case (Cons e es)
  show ?case
  proof (cases "category_or_work (classification e) \<in> set (map fst stats)")
    case True
    have "category_stats_loop (e # es) stats
            = category_stats_loop es (count_in stats (category_or_work (classification e)))"
      by simp
    also have "\<dots> = category_stats_loop
        (filter (\<lambda>e. category_or_work (classification e) \<in> set (map fst stats)) es)
        (count_in stats (category_or_work (classification e)))"
      using Cons.IH [of "count_in stats (category_or_work (classification e))"]
      by (simp only: count_in_keys)
    finally show ?thesis using True by simp
  next
    case False
    then have "count_in stats (category_or_work (classification e)) = stats"
      by (rule count_in_skip)
    with False Cons.IH [of stats] show ?thesis by simp
  qed
qed

lemma priority_loop_keys: "map fst (priority_stats_loop es stats) = map fst stats"
  by (induction es arbitrary: stats) (simp_all add: count_in_keys)

lemma priority_loop_lookup:
  "map_of (priority_stats_loop es stats) k =
     map_option (\<lambda>v. v + int (length (filter (\<lambda>e. priority_or_medium (priority_analysis e) = k) es)))
       (map_of stats k)"
proof (induction es arbitrary: stats)
  case Nil
  then show ?case by (simp add: option.map_ident)
next
  case (Cons e es)
  show ?case
    by (cases "map_of stats k") (auto simp: Cons.IH count_in_lookup)
qed

lemma priority_loop_sum:
  "sum_list (map snd (priority_stats_loop es stats)) =
     sum_list (map snd stats) +
     int (length (filter (\<lambda>e. priority_or_medium (priority_analysis e) \<in> set (map fst stats)) es))"
proof (induction es arbitrary: stats)
  case Nil
  then show ?case by simp
next
  case (Cons e es)
  show ?case
    by (simp only: priority_stats_loop.simps Cons.IH count_in_keys count_in_sum) simp
qed

lemma priority_loop_filter:
  "priority_stats_loop es stats =
     priority_stats_loop
       (filter (\<lambda>e. priority_or_medium (priority_analysis e) \<in> set (map fst stats)) es) stats"
proof (induction es arbitrary: stats)
  case Nil
  then show ?case by simp
next
  case (Cons e es)
  show ?case
  proof (cases "priority_or_medium (priority_analysis e) \<in> set (map fst stats)")
    case True
    have "priority_stats_loop (e # es) stats
            = priority_stats_loop es (count_in stats (priority_or_medium (priority_analysis e)))"
      by simp
    also have "\<dots> = priority_stats_loop
        (filter (\<lambda>e. priority_or_medium (priority_analysis e) \<in> set (map fst stats)) es)
        (count_in stats (priority_or_medium (priority_analysis e)))"
      using Cons.IH [of "count_in stats (priority_or_medium (priority_analysis e))"]
      by (simp only: count_in_keys)
    finally show ?thesis using True by simp
  next
    case False
    then have "count_in stats (priority_or_medium (priority_analysis e)) = stats"
      by (rule count_in_skip)
    with False Cons.IH [of stats] show ?thesis by simp
  qed
qed

lemma zero_stats: "map fst (map (\<lambda>c. (c, 0::int)) keys) = keys"
  "sum_list (map snd (map (\<lambda>c. (c, 0::int)) keys)) = 0"
  "map_of (map (\<lambda>c. (c, 0::int)) keys) k = (if k \<in> set keys then Some 0 else None)"
  by (induction keys) auto

lemma category_stats_keys: "map fst (get_category_stats es) = EMAIL_CATEGORIES"
  by (simp only: get_category_stats_def category_loop_keys zero_stats)

lemma category_stats_count:
  "k \<in> set EMAIL_CATEGORIES \<Longrightarrow>
   map_of (get_category_stats es) k =
     Some (int (length (filter (\<lambda>e. category_or_work (classification e) = k) es)))"
  by (simp add: get_category_stats_def category_loop_lookup zero_stats)

lemma category_stats_sum:
  "sum_list (map snd (get_category_stats es)) =
     int (length (filter (\<lambda>e. category_or_work (classification e) \<in> set EMAIL_CATEGORIES) es))"
  by (simp add: get_category_stats_def category_loop_sum zero_stats del: map_map)

lemma category_stats_filter:
  "get_category_stats es =
     get_category_stats
       (filter (\<lambda>e. category_or_work (classification e) \<in> set EMAIL_CATEGORIES) es)"
  using category_loop_filter [of es "map (\<lambda>c. (c, 0)) EMAIL_CATEGORIES"]
  by (simp only: get_category_stats_def zero_stats)

lemma category_stats_less:
  assumes "\<exists>e \<in> set es. category_or_work (classification e) \<notin> set EMAIL_CATEGORIES"
  shows "sum_list (map snd (get_category_stats es)) < int (length es)"
proof -
  from assms obtain e where "e \<in> set es" "category_or_work (classification e) \<notin> set EMAIL_CATEGORIES"
    by blast
  then have "length (filter (\<lambda>e. category_or_work (classification e) \<in> set EMAIL_CATEGORIES) es)
               < length es"
    by (rule length_filter_less)
  then show ?thesis by (simp only: category_stats_sum of_nat_less_iff)
qed

lemma priority_stats_keys: "map fst (get_priority_stats es) = map fst PRIORITY_LEVELS"
  by (simp only: get_priority_stats_def priority_loop_keys zero_stats)

lemma priority_stats_count:
  "k \<in> set (map fst PRIORITY_LEVELS) \<Longrightarrow>
   map_of (get_priority_stats es) k =
     Some (int (length (filter (\<lambda>e. priority_or_medium (priority_analysis e) = k) es)))"
  by (simp add: get_priority_stats_def priority_loop_lookup zero_stats del: set_map map_map)

lemma priority_stats_sum:
  "sum_list (map snd (get_priority_stats es)) =
     int (length (filter (\<lambda>e. priority_or_medium (priority_analysis e) \<in> set (map fst PRIORITY_LEVELS)) es))"
  by (simp add: get_priority_stats_def priority_loop_sum zero_stats del: map_map)

lemma priority_stats_filter:
  "get_priority_stats es =
     get_priority_stats
       (filter (\<lambda>e. priority_or_medium (priority_analysis e) \<in> set (map fst PRIORITY_LEVELS)) es)"
  using priority_loop_filter [of es "map (\<lambda>p. (p, 0)) (map fst PRIORITY_LEVELS)"]
  by (simp only: get_priority_stats_def zero_stats)

lemma priority_stats_less:
  assumes "\<exists>e \<in> set es. priority_or_medium (priority_analysis e) \<notin> set (map fst PRIORITY_LEVELS)"
  shows "sum_list (map snd (get_priority_stats es)) < int (length es)"
proof -
  from assms obtain e where "e \<in> set es"
    "priority_or_medium (priority_analysis e) \<notin> set (map fst PRIORITY_LEVELS)"
    by blast
  then have "length (filter (\<lambda>e. priority_or_medium (priority_analysis e)
                                  \<in> set (map fst PRIORITY_LEVELS)) es) < length es"
    by (rule length_filter_less)
  then show ?thesis by (simp only: priority_stats_sum of_nat_less_iff)
qed


lemma stats_examples:
  "get_category_stats
     [example_email,
      example_email\<lparr>classification := Some (classified_as (str ''spam''))\<rparr>,
      example_email\<lparr>classification := Some (classified_as (str ''other''))\<rparr>]
   = [(str ''urgent'', 0), (str ''work'', 1), (str ''marketing'', 0), (str ''internal'', 0),
      (str ''spam'', 1)]"
  "get_priority_stats [mail (str ''high'') 5, example_email, mail (str ''soon'') 1]
   = [(str ''high'', 1), (str ''medium'', 1), (str ''low'', 0)]"
  by (simp_all add: get_category_stats_def get_priority_stats_def count_in_def
      category_or_work_def priority_or_medium_def classified_as_def analyzed_as_def mail_def
      example_email_def EMAIL_CATEGORIES_def PRIORITY_LEVELS_def str_def)

text \<open>
  Claim C10. For every list of records, \<open>get_category_stats\<close> and \<open>get_priority_stats\<close>
  return a dictionary whose keys are exactly the fixed categories (the fixed priorities).
  The count under a key is the number of records whose category (priority) is that key,
  where a record with no classification (no priority analysis) has the default \<open>work\<close>
  (\<open>medium\<close>). A record whose value lies outside the fixed set is in no count: dropping
  these records from the input leaves the result unchanged, the counts add up to the
  number of the remaining records, and with one such record in the input the sum is
  strictly less than the length of the input. No error is raised.
\<close>

theorem stats_over_fixed_keys:
  "map fst (get_category_stats es)
     = [str ''urgent'', str ''work'', str ''marketing'', str ''internal'', str ''spam''] \<and>
   (\<forall>k \<in> set EMAIL_CATEGORIES.
      map_of (get_category_stats es) k
        = Some (int (length (filter (\<lambda>e. category_or_work (classification e) = k) es)))) \<and>
   category_or_work None = str ''work'' \<and>
   get_category_stats es
     = get_category_stats
         (filter (\<lambda>e. category_or_work (classification e) \<in> set EMAIL_CATEGORIES) es) \<and>
   sum_list (map snd (get_category_stats es))
     = int (length (filter (\<lambda>e. category_or_work (classification e) \<in> set EMAIL_CATEGORIES) es)) \<and>
   ((\<exists>e \<in> set es. category_or_work (classification e) \<notin> set EMAIL_CATEGORIES)
      \<longrightarrow> sum_list (map snd (get_category_stats es)) < int (length es)) \<and>
   map fst (get_priority_stats es) = [str ''high'', str ''medium'', str ''low''] \<and>
   (\<forall>k \<in> set (map fst PRIORITY_LEVELS).
      map_of (get_priority_stats es) k
        = Some (int (length (filter (\<lambda>e. priority_or_medium (priority_analysis e) = k) es)))) \<and>
   priority_or_medium None = str ''medium'' \<and>
   get_priority_stats es
     = get_priority_stats
         (filter (\<lambda>e. priority_or_medium (priority_analysis e) \<in> set (map fst PRIORITY_LEVELS)) es) \<and>
   sum_list (map snd (get_priority_stats es))
     = int (length (filter (\<lambda>e. priority_or_medium (priority_analysis e)
                                  \<in> set (map fst PRIORITY_LEVELS)) es)) \<and>
   ((\<exists>e \<in> set es. priority_or_medium (priority_analysis e) \<notin> set (map fst PRIORITY_LEVELS))
      \<longrightarrow> sum_list (map snd (get_priority_stats es)) < int (length es))"
proof (intro conjI ballI impI)
  show "map fst (get_category_stats es)
     = [str ''urgent'', str ''work'', str ''marketing'', str ''internal'', str ''spam'']"
    by (simp only: category_stats_keys EMAIL_CATEGORIES_def)
  show "map fst (get_priority_stats es) = [str ''high'', str ''medium'', str ''low'']"
    by (simp add: priority_stats_keys PRIORITY_LEVELS_def)
  show "category_or_work None = str ''work''" by (simp add: category_or_work_def)
  show "priority_or_medium None = str ''medium''" by (simp add: priority_or_medium_def)
  show "get_category_stats es = get_category_stats
         (filter (\<lambda>e. category_or_work (classification e) \<in> set EMAIL_CATEGORIES) es)"
    by (rule category_stats_filter)
  show "get_priority_stats es = get_priority_stats
         (filter (\<lambda>e. priority_or_medium (priority_analysis e) \<in> set (map fst PRIORITY_LEVELS)) es)"
    by (rule priority_stats_filter)
  show "sum_list (map snd (get_category_stats es))
     = int (length (filter (\<lambda>e. category_or_work (classification e) \<in> set EMAIL_CATEGORIES) es))"
    by (rule category_stats_sum)
  show "sum_list (map snd (get_priority_stats es))
     = int (length (filter (\<lambda>e. priority_or_medium (priority_analysis e)
                                  \<in> set (map fst PRIORITY_LEVELS)) es))"
    by (rule priority_stats_sum)
next
  fix k assume "k \<in> set EMAIL_CATEGORIES"
  then show "map_of (get_category_stats es) k
        = Some (int (length (filter (\<lambda>e. category_or_work (classification e) = k) es)))"
    by (rule category_stats_count)
next
  fix k assume "k \<in> set (map fst PRIORITY_LEVELS)"
  then show "map_of (get_priority_stats es) k
        = Some (int (length (filter (\<lambda>e. priority_or_medium (priority_analysis e) = k) es)))"
    by (rule priority_stats_count)
next
  assume "\<exists>e \<in> set es. category_or_work (classification e) \<notin> set EMAIL_CATEGORIES"
  then show "sum_list (map snd (get_category_stats es)) < int (length es)"
    by (rule category_stats_less)
next
  assume "\<exists>e \<in> set es. priority_or_medium (priority_analysis e) \<notin> set (map fst PRIORITY_LEVELS)"
  then show "sum_list (map snd (get_priority_stats es)) < int (length es)"
    by (rule priority_stats_less)
qed

theorem stats_over_fixed_keys_witness:
  "get_category_stats
     [example_email,
      example_email\<lparr>classification := Some (classified_as (str ''spam''))\<rparr>,
      example_email\<lparr>classification := Some (classified_as (str ''other''))\<rparr>]
   = [(str ''urgent'', 0), (str ''work'', 1), (str ''marketing'', 0), (str ''internal'', 0),
      (str ''spam'', 1)] \<and>
   int (length (filter (\<lambda>e. category_or_work (classification e) = str ''work'')
     [example_email,
      example_email\<lparr>classification := Some (classified_as (str ''spam''))\<rparr>,
      example_email\<lparr>classification := Some (classified_as (str ''other''))\<rparr>])) = 1 \<and>
   sum_list (map snd (get_category_stats
     [example_email,
      example_email\<lparr>classification := Some (classified_as (str ''spam''))\<rparr>,
      example_email\<lparr>classification := Some (classified_as (str ''other''))\<rparr>])) < 3 \<and>
   get_priority_stats [mail (str ''high'') 5, example_email, mail (str ''soon'') 1]
   = [(str ''high'', 1), (str ''medium'', 1), (str ''low'', 0)] \<and>
   int (length (filter (\<lambda>e. priority_or_medium (priority_analysis e) = str ''medium'')
     [mail (str ''high'') 5, example_email, mail (str ''soon'') 1])) = 1 \<and>
   sum_list (map snd (get_priority_stats
     [mail (str ''high'') 5, example_email, mail (str ''soon'') 1])) < 3"
proof -
  let ?cs = "[example_email,
      example_email\<lparr>classification := Some (classified_as (str ''spam''))\<rparr>,
      example_email\<lparr>classification := Some (classified_as (str ''other''))\<rparr>]"
  let ?ps = "[mail (str ''high'') 5, example_email, mail (str ''soon'') 1]"
  note c = stats_over_fixed_keys [of ?cs]
  note p = stats_over_fixed_keys [of ?ps]
  have work: "str ''work'' \<in> set EMAIL_CATEGORIES" by (simp add: EMAIL_CATEGORIES_def)
  have medium: "str ''medium'' \<in> set (map fst PRIORITY_LEVELS)" by (simp add: PRIORITY_LEVELS_def)
  have other: "\<exists>e \<in> set ?cs. category_or_work (classification e) \<notin> set EMAIL_CATEGORIES"
    by (simp add: category_or_work_def classified_as_def EMAIL_CATEGORIES_def str_def)
  have soon: "\<exists>e \<in> set ?ps. priority_or_medium (priority_analysis e) \<notin> set (map fst PRIORITY_LEVELS)"
    by (simp add: priority_or_medium_def analyzed_as_def mail_def PRIORITY_LEVELS_def str_def)
  from c work have cm: "map_of (get_category_stats ?cs) (str ''work'')
      = Some (int (length (filter (\<lambda>e. category_or_work (classification e) = str ''work'') ?cs)))"
    by blast
  have cv: "map_of (get_category_stats ?cs) (str ''work'') = Some 1"
    unfolding stats_examples by (simp add: str_def)
  from cm cv
  have 1: "int (length (filter (\<lambda>e. category_or_work (classification e) = str ''work'') ?cs)) = 1"
    by (metis option.inject)
  from c other have 2: "sum_list (map snd (get_category_stats ?cs)) < int (length ?cs)" by blast
  from p medium have pm: "map_of (get_priority_stats ?ps) (str ''medium'')
      = Some (int (length (filter (\<lambda>e. priority_or_medium (priority_analysis e) = str ''medium'') ?ps)))"
    by blast
  have pv: "map_of (get_priority_stats ?ps) (str ''medium'') = Some 1"
    unfolding stats_examples by (simp add: str_def)
  from pm pv
  have 3: "int (length (filter (\<lambda>e. priority_or_medium (priority_analysis e) = str ''medium'') ?ps)) = 1"
    by (metis option.inject)
  from p soon have 4: "sum_list (map snd (get_priority_stats ?ps)) < int (length ?ps)" by blast
  from 2 have s2: "sum_list (map snd (get_category_stats ?cs)) < 3" by simp
  from 4 have s4: "sum_list (map snd (get_priority_stats ?ps)) < 3" by simp
  from stats_examples(1) 1 s2 stats_examples(2) 3 s4 show ?thesis by (intro conjI)
qed

subsection \<open>Floating point\<close>









lemma float_examples:
  "dbl (1 / 10) = 3602879701896397 / 36028797018963968"
  "dbl (3 / 10) = 5404319552844595 / 18014398509481984"
  "dbl (85 / 100) = 7656119366529843 / 9007199254740992"
  "dbl 100 = 100"
  "round1 (fmul (truediv 1 3) 100) = 2343279181116211 / 70368744177664"
  by code_simp+




subsection \<open>The response statistics\<close>






subsection \<open>The batch operations\<close>



















end
